theory Spec2Isabelle
  imports Main "HOL-Library.Char_ord" "HOL-Library.List_Lexorder"
begin

section \<open>dependency-confusion-finder.py: a shallow embedding\<close>

text \<open>
  The script reads a CycloneDX SBOM, extracts the package URLs (purls) of its components,
  splits each purl into an ecosystem and a package name, asks the public registry of the
  ecosystem whether the name exists, and writes one report line per processed purl.

  Python strings are modelled as \<^typ>\<open>string\<close>, a list of characters; the order on
  them is the lexicographic order on character codes, as Python's \<open>sorted\<close> uses, and
  the length of a string is the number of its characters. Everything outside the process
  (the scanning tool, the file system, the registries) is a field of an environment
  record, and every observable action of a run is appended to a trace of events.
\<close>

subsection \<open>Python primitives used by the script\<close>

datatype exn = ValueError | IndexError | FileNotFoundError

text \<open>\<open>s.split(sep, 1)\<close> for a one-character separator: at most one split, at the first
  occurrence of the separator.\<close>

definition split_once :: "char \<Rightarrow> string \<Rightarrow> string list" where
  "split_once sep s =
     (if sep \<in> set s
      then [takeWhile (\<lambda>c. c \<noteq> sep) s, tl (dropWhile (\<lambda>c. c \<noteq> sep) s)]
      else [s])"

text \<open>Tuple unpacking \<open>a, b = xs\<close>: a \<open>ValueError\<close> unless there are exactly two values.\<close>

definition unpack2 :: "string list \<Rightarrow> exn + (string \<times> string)" where
  "unpack2 xs = (case xs of [a, b] \<Rightarrow> Inr (a, b) | _ \<Rightarrow> Inl ValueError)"

text \<open>Indexing \<open>xs[0]\<close>: an \<open>IndexError\<close> on the empty list.\<close>

definition index0 :: "string list \<Rightarrow> exn + string" where
  "index0 xs = (case xs of [] \<Rightarrow> Inl IndexError | x # _ \<Rightarrow> Inr x)"

text \<open>\<open>str(n)\<close> for an integer, used where a message interpolates a status or exit code.\<close>

definition digit_char :: "nat \<Rightarrow> char" where
  "digit_char d = char_of (48 + d)"

fun str_nat :: "nat \<Rightarrow> string" where
  "str_nat n = (if n < 10 then [digit_char n] else str_nat (n div 10) @ [digit_char (n mod 10)])"

definition str_int :: "int \<Rightarrow> string" where
  "str_int i = (if i < 0 then CHR ''-'' # str_nat (nat (- i)) else str_nat (nat i))"

text \<open>The format specification \<open>{s:<5}\<close>: the text left-aligned in a field of at least
  five characters, filled with spaces on the right, never truncated.\<close>

definition ljust :: "nat \<Rightarrow> string \<Rightarrow> string" where
  "ljust w s = s @ replicate (w - length s) CHR '' ''"

text \<open>\<open>sep.join(xs)\<close>.\<close>

fun join :: "string \<Rightarrow> string list \<Rightarrow> string" where
  "join sep [] = []"
| "join sep [x] = x"
| "join sep (x # y # ys) = x @ sep @ join sep (y # ys)"

text \<open>\<open>sorted(set(xs))\<close>: the distinct elements in ascending order.\<close>

definition sorted_set :: "string list \<Rightarrow> string list" where
  "sorted_set xs = sort (remdups xs)"

subsection \<open>Package identity parser\<close>

text \<open>The body of the \<open>try\<close> block of \<open>extract_pkg_info\<close>, with every exception it can
  raise as a value.\<close>

definition extract_pkg_info_try :: "string \<Rightarrow> exn + (string \<times> string)" where
  "extract_pkg_info_try purl =
     (case unpack2 (split_once CHR '':'' purl) of
        Inl e \<Rightarrow> Inl e
      | Inr (_, rest) \<Rightarrow>
          (case unpack2 (split_once CHR ''/'' rest) of
             Inl e \<Rightarrow> Inl e
           | Inr (ecosystem, remainder) \<Rightarrow>
               (case index0 (split_once CHR ''@'' remainder) of
                  Inl e \<Rightarrow> Inl e
                | Inr pkg_name \<Rightarrow> Inr (ecosystem, pkg_name))))"

text \<open>\<open>extract_pkg_info\<close>: \<open>except ValueError\<close> turns a \<open>ValueError\<close> into the pair
  \<open>(None, None)\<close>, modelled as \<open>None\<close>; any other exception would leave the function
  (\<open>Inl\<close>).\<close>

definition extract_pkg_info :: "string \<Rightarrow> exn + (string \<times> string) option" where
  "extract_pkg_info purl =
     (case extract_pkg_info_try purl of
        Inr r \<Rightarrow> Inr (Some r)
      | Inl ValueError \<Rightarrow> Inr None
      | Inl e \<Rightarrow> Inl e)"

subsection \<open>The world outside the process\<close>

text \<open>A component of a CycloneDX document carries an optional string field \<open>purl\<close>
  (\<open>comp.get("purl")\<close> is \<open>None\<close> when the field is absent or null); the document
  carries an optional array \<open>components\<close> (\<open>data.get("components", [])\<close>).\<close>

record component =
  purl :: "string option"

record sbom =
  components :: "component list option"

text \<open>What \<open>sbom_path.open()\<close> followed by \<open>json.load\<close> does: the two exceptions
  the script catches, each with its message, or the parsed document.\<close>

datatype sbom_read =
    MissingFile string
  | JSONDecodeError string
  | Parsed sbom

text \<open>What \<open>subprocess.run(cmd, check=True)\<close> does: the executable is not found, or it
  ran and returned a code (\<open>CalledProcessError\<close> is raised for a non-zero code).\<close>

datatype proc = NotOnPath | Returned int

text \<open>What \<open>requests.get(url, timeout=10)\<close> does: a response with a status code, or a
  \<open>RequestException\<close> with its message (timeout, connection error, DNS failure).\<close>

datatype http = Response int | RequestException string

datatype event =
    Stdout string
  | Stderr string
  | PrintHelp
  | UsageError string
  | RunTrivyVersion
  | RunTrivyFs string string
  | ReadSbom string
  | HttpGet string
  | WriteReport string string

type_synonym trace = "event list"

text \<open>The URLs requested so far, oldest first.\<close>

definition requested :: "trace \<Rightarrow> string list" where
  "requested t = concat (map (\<lambda>e. case e of HttpGet u \<Rightarrow> [u] | _ \<Rightarrow> []) t)"

text \<open>The environment of a run. A registry answers a request given the URLs requested
  before it, so the same URL may be answered differently at different times. Writing the
  report either succeeds (\<open>None\<close>) or raises an exception with a message.\<close>

record env =
  trivy_version :: proc
  trivy_fs :: "string \<Rightarrow> string \<Rightarrow> proc"
  read_sbom :: "string \<Rightarrow> sbom_read"
  registry :: "string list \<Rightarrow> string \<Rightarrow> http"
  write_file :: "string \<Rightarrow> string \<Rightarrow> string option"

text \<open>How a run ends: \<open>sys.exit(n)\<close> (returning from \<open>main\<close> is \<open>Exit 0\<close>), or an
  exception nobody catches.\<close>

datatype outcome = Exit int | Uncaught exn

subsection \<open>SBOM source resolver\<close>

definition check_trivy :: "env \<Rightarrow> trace \<Rightarrow> (outcome + unit) \<times> trace" where
  "check_trivy ev t =
     (let t1 = t @ [RunTrivyVersion];
          failed = (Inl (Exit 1),
            t1 @ [Stderr ''Error: Trivy is not installed or not on your PATH.''])
      in case trivy_version ev of
           NotOnPath \<Rightarrow> failed
         | Returned rc \<Rightarrow> if rc \<noteq> 0 then failed else (Inr (), t1))"

text \<open>\<open>target_dir\<close> is \<open>args.directory\<close>, which is \<open>None\<close> when the option was not
  given; \<open>str(None)\<close> is the text \<open>None\<close>.\<close>

definition str_path :: "string option \<Rightarrow> string" where
  "str_path p = (case p of None \<Rightarrow> ''None'' | Some f \<Rightarrow> f)"

definition generate_sbom :: "env \<Rightarrow> string option \<Rightarrow> string \<Rightarrow> trace \<Rightarrow> (outcome + unit) \<times> trace" where
  "generate_sbom ev target_dir sbom_path t =
     (let t1 = t @ [Stdout (''Generating SBOM -> '' @ sbom_path),
                    RunTrivyFs sbom_path (str_path target_dir)]
      in case trivy_fs ev sbom_path (str_path target_dir) of
           NotOnPath \<Rightarrow> (Inl (Uncaught FileNotFoundError), t1)
         | Returned rc \<Rightarrow>
             if rc \<noteq> 0
             then (Inl (Exit rc),
                   t1 @ [Stderr (''Error: Trivy SBOM generation failed (exit code ''
                                 @ str_int rc @ '').'')])
             else (Inr (), t1))"

subsection \<open>Purl extractor\<close>

text \<open>The set comprehension of \<open>parse_purls\<close>, sorted: the purls of the components
  whose \<open>purl\<close> is truthy, that is, present and not the empty string.\<close>

definition truthy :: "string option \<Rightarrow> bool" where
  "truthy v = (case v of None \<Rightarrow> False | Some s \<Rightarrow> s \<noteq> [])"

definition purls_of :: "sbom \<Rightarrow> string list" where
  "purls_of data =
     (let comps = (case components data of None \<Rightarrow> [] | Some cs \<Rightarrow> cs)
      in sorted_set (map (\<lambda>comp. the (purl comp)) (filter (\<lambda>comp. truthy (purl comp)) comps)))"

definition parse_purls :: "env \<Rightarrow> string \<Rightarrow> trace \<Rightarrow> (outcome + string list) \<times> trace" where
  "parse_purls ev sbom_path t =
     (let t1 = t @ [ReadSbom sbom_path];
          failed = (\<lambda>e. (Inl (Exit 1),
            t1 @ [Stderr (''Error: Failed to parse SBOM file '' @ [CHR 39] @ sbom_path
                          @ [CHR 39] @ '': '' @ e)]))
      in case read_sbom ev sbom_path of
           MissingFile e \<Rightarrow> failed e
         | JSONDecodeError e \<Rightarrow> failed e
         | Parsed data \<Rightarrow> (Inr (purls_of data), t1))"

subsection \<open>Registry existence checker\<close>

text \<open>The result is Python's \<open>False\<close>, \<open>True\<close> or \<open>None\<close>; the specification calls them
  NotFoundPublicly, ExistsPublicly and Unknown.\<close>

type_synonym verdict = "bool option"

abbreviation NotFoundPublicly :: verdict where "NotFoundPublicly \<equiv> Some False"
abbreviation ExistsPublicly :: verdict where "ExistsPublicly \<equiv> Some True"
abbreviation Unknown :: verdict where "Unknown \<equiv> None"

definition registry_url :: "string \<Rightarrow> string \<Rightarrow> string option" where
  "registry_url ecosystem name =
     (if ecosystem = ''pypi'' then Some (''https://pypi.org/pypi/'' @ name @ ''/json'')
      else if ecosystem = ''npm'' then Some (''https://registry.npmjs.org/'' @ name)
      else None)"

definition check_public_registry :: "env \<Rightarrow> string \<Rightarrow> string \<Rightarrow> trace \<Rightarrow> verdict \<times> trace" where
  "check_public_registry ev ecosystem name t =
     (case registry_url ecosystem name of
        None \<Rightarrow> (None, t)
      | Some url \<Rightarrow>
          (let t1 = t @ [HttpGet url]
           in case registry ev (requested t) url of
                Response status_code \<Rightarrow>
                  if status_code = 404 then (Some False, t1)
                  else if status_code = 200 then (Some True, t1)
                  else (None,
                        t1 @ [Stderr (''Warning: Unexpected status '' @ str_int status_code
                                      @ '' for '' @ ecosystem @ ''/'' @ name)])
              | RequestException e \<Rightarrow>
                  (None,
                   t1 @ [Stderr (''Error: Network error when checking '' @ ecosystem @ ''/''
                                 @ name @ '': '' @ e)])))"

subsection \<open>Report generator\<close>

text \<open>The line appended to \<open>report_lines\<close> for one package.\<close>

definition report_line :: "string \<Rightarrow> string \<Rightarrow> verdict \<Rightarrow> string" where
  "report_line eco name exists =
     (if exists = Some False then ''[OK]   '' @ ljust 5 eco @ '' '' @ name @ '' not found publicly''
      else if exists = Some True
      then ''[WARN] '' @ ljust 5 eco @ '' '' @ name @ '' EXISTS publicly - potential collision''
      else ''[INFO] '' @ ljust 5 eco @ '' '' @ name @ '' unknown status or unsupported ecosystem'')"

text \<open>The \<open>for purl in purls\<close> loop of \<open>main\<close>: the report lines collected so far and the
  trace are the state.\<close>

fun check_purls :: "env \<Rightarrow> string list \<Rightarrow> string list \<Rightarrow> trace \<Rightarrow> (outcome + string list) \<times> trace" where
  "check_purls ev [] report_lines t = (Inr report_lines, t)"
| "check_purls ev (p # ps) report_lines t =
     (case extract_pkg_info p of
        Inl e \<Rightarrow> (Inl (Uncaught e), t)
      | Inr None \<Rightarrow> check_purls ev ps report_lines (t @ [Stderr (''Skipping invalid PURL: '' @ p)])
      | Inr (Some (eco, name)) \<Rightarrow>
          if eco = [] \<or> name = []
          then check_purls ev ps report_lines (t @ [Stderr (''Skipping invalid PURL: '' @ p)])
          else (case check_public_registry ev eco name t of
                  (exists, t1) \<Rightarrow>
                    check_purls ev ps (report_lines @ [report_line eco name exists]) t1))"

text \<open>The \<open>try\<close> block that writes the report.\<close>

definition write_report :: "env \<Rightarrow> string \<Rightarrow> string list \<Rightarrow> trace \<Rightarrow> outcome \<times> trace" where
  "write_report ev report_out report_lines t =
     (let content = join [CHR 10] report_lines;
          t1 = t @ [WriteReport report_out content]
      in case write_file ev report_out content of
           None \<Rightarrow> (Exit 0, t1 @ [Stdout (''Dependency confusion report written to '' @ report_out)])
         | Some e \<Rightarrow>
             (Exit 1,
              t1 @ [Stderr (''Error: Unable to write report file '' @ [CHR 39] @ report_out
                            @ [CHR 39] @ '': '' @ e)]))"

subsection \<open>Command line\<close>

text \<open>A command line is a sequence of the four options the parser declares, each with its
  value (\<open>sys.argv[1:]\<close> after tokenisation). The namespace starts from the declared
  defaults.\<close>

datatype arg = Directory string | SbomIn string | SbomOut string | ReportOut string

record namespace =
  directory :: "string option"
  sbom_in :: "string option"
  sbom_out :: string
  report_out :: string

definition defaults :: namespace where
  "defaults = \<lparr> directory = None, sbom_in = None, sbom_out = ''sbom.json'',
                report_out = ''dependency_confusion_report.txt'' \<rparr>"

text \<open>\<open>parser.parse_args()\<close> for the parser built in \<open>main\<close>, following the argparse
  library: options are consumed left to right; \<open>--directory\<close> and \<open>--sbom-in\<close> form a
  mutually exclusive group, so the second of them to appear is an error; the group is
  required, so a command line with neither is an error once all options are consumed. An
  error (\<open>Inl\<close> with its message) makes argparse print the usage and exit with status 2.\<close>

fun consume :: "arg list \<Rightarrow> namespace \<Rightarrow> string + namespace" where
  "consume [] ns =
     (if directory ns = None \<and> sbom_in ns = None
      then Inl ''one of the arguments --directory --sbom-in is required''
      else Inr ns)"
| "consume (Directory d # as) ns =
     (if sbom_in ns \<noteq> None
      then Inl ''argument --directory: not allowed with argument --sbom-in''
      else consume as (ns\<lparr>directory := Some d\<rparr>))"
| "consume (SbomIn f # as) ns =
     (if directory ns \<noteq> None
      then Inl ''argument --sbom-in: not allowed with argument --directory''
      else consume as (ns\<lparr>sbom_in := Some f\<rparr>))"
| "consume (SbomOut f # as) ns = consume as (ns\<lparr>sbom_out := f\<rparr>)"
| "consume (ReportOut f # as) ns = consume as (ns\<lparr>report_out := f\<rparr>)"

definition parse_args :: "arg list \<Rightarrow> string + namespace" where
  "parse_args argv = consume argv defaults"

subsection \<open>The run\<close>

text \<open>The part of \<open>main\<close> that determines the path of the SBOM.\<close>

definition sbom_source :: "env \<Rightarrow> namespace \<Rightarrow> trace \<Rightarrow> (outcome + string) \<times> trace" where
  "sbom_source ev args t =
     (case sbom_in args of
        Some f \<Rightarrow> (Inr f, t)
      | None \<Rightarrow>
          (case check_trivy ev t of
             (Inl out, t1) \<Rightarrow> (Inl out, t1)
           | (Inr _, t1) \<Rightarrow>
               (case generate_sbom ev (directory args) (sbom_out args) t1 of
                  (Inl out, t2) \<Rightarrow> (Inl out, t2)
                | (Inr _, t2) \<Rightarrow> (Inr (sbom_out args), t2))))"

definition main :: "env \<Rightarrow> arg list \<Rightarrow> outcome \<times> trace" where
  "main ev argv =
     (if argv = [] then (Exit 1, [PrintHelp])
      else case parse_args argv of
        Inl msg \<Rightarrow> (Exit 2, [UsageError msg])
      | Inr args \<Rightarrow>
          (case sbom_source ev args [] of
             (Inl out, t1) \<Rightarrow> (out, t1)
           | (Inr sbom_path, t1) \<Rightarrow>
               (case parse_purls ev sbom_path t1 of
                  (Inl out, t2) \<Rightarrow> (out, t2)
                | (Inr purls, t2) \<Rightarrow>
                    (let t3 = (if purls = [] then t2 @ [Stderr ''No PURLs found in SBOM.'']
                               else t2)
                     in case check_purls ev purls [] t3 of
                          (Inl out, t4) \<Rightarrow> (out, t4)
                        | (Inr report_lines, t4) \<Rightarrow>
                            write_report ev (report_out args) report_lines t4))))"

subsection \<open>Observations used to state the properties\<close>

text \<open>The identity under which the loop of \<open>main\<close> processes a purl: the parsed pair when
  both parts are non-empty (\<open>if not eco or not name\<close> fails), nothing when the purl is
  skipped.\<close>

definition identity :: "string \<Rightarrow> (string \<times> string) option" where
  "identity p =
     (case extract_pkg_info p of
        Inr (Some (eco, name)) \<Rightarrow> if eco = [] \<or> name = [] then None else Some (eco, name)
      | _ \<Rightarrow> None)"

text \<open>The ordered sequence of (ecosystem, name, verdict) tuples that the report is made
  of: one for every purl that is not skipped, with the verdict the registry check gives
  at that point of the run.\<close>

fun verdicts :: "env \<Rightarrow> string list \<Rightarrow> trace \<Rightarrow> (string \<times> string \<times> verdict) list" where
  "verdicts ev [] t = []"
| "verdicts ev (p # ps) t =
     (case identity p of
        None \<Rightarrow> verdicts ev ps (t @ [Stderr (''Skipping invalid PURL: '' @ p)])
      | Some (eco, name) \<Rightarrow>
          (eco, name, fst (check_public_registry ev eco name t))
            # verdicts ev ps (snd (check_public_registry ev eco name t)))"

definition tuple_line :: "string \<times> string \<times> verdict \<Rightarrow> string" where
  "tuple_line x = (case x of (eco, name, exists) \<Rightarrow> report_line eco name exists)"

text \<open>The end-to-end scenario of the specification: three components, two of them with
  the same purl; the registry knows \<open>requests\<close> and does not know \<open>left-pad\<close>.\<close>

definition scenario_sbom :: sbom where
  "scenario_sbom = \<lparr> components = Some
     [\<lparr> purl = Some ''pkg:pypi/requests@2.31.0'' \<rparr>,
      \<lparr> purl = Some ''pkg:npm/left-pad@1.0.0'' \<rparr>,
      \<lparr> purl = Some ''pkg:npm/left-pad@1.0.0'' \<rparr>] \<rparr>"

definition scenario_registry :: "string list \<Rightarrow> string \<Rightarrow> http" where
  "scenario_registry earlier url =
     (if url = ''https://pypi.org/pypi/requests/json'' then Response 200
      else if url = ''https://registry.npmjs.org/left-pad'' then Response 404
      else Response 500)"

definition scenario_env :: env where
  "scenario_env = \<lparr> trivy_version = NotOnPath, trivy_fs = (\<lambda>sbom_path dir. NotOnPath),
     read_sbom = (\<lambda>path. Parsed scenario_sbom), registry = scenario_registry,
     write_file = (\<lambda>path content. None) \<rparr>"

text \<open>The same environment with every registry request timing out.\<close>

definition offline_env :: env where
  "offline_env = scenario_env \<lparr> registry := (\<lambda>earlier url. RequestException ''timed out'') \<rparr>"

text \<open>An SBOM that lists one package at two versions, read in the scenario's
  environment.\<close>

definition two_versions_sbom :: sbom where
  "two_versions_sbom = \<lparr> components = Some
     [\<lparr> purl = Some ''pkg:npm/left-pad@1.0.0'' \<rparr>,
      \<lparr> purl = Some ''pkg:npm/left-pad@1.0.1'' \<rparr>] \<rparr>"

definition two_versions_env :: env where
  "two_versions_env = scenario_env \<lparr> read_sbom := (\<lambda>path. Parsed two_versions_sbom) \<rparr>"

text \<open>An SBOM with a component without a purl and one with an empty purl.\<close>

definition sparse_sbom :: sbom where
  "sparse_sbom = \<lparr> components = Some
     [\<lparr> purl = Some ''pkg:npm/b'' \<rparr>, \<lparr> purl = None \<rparr>, \<lparr> purl = Some [] \<rparr>,
      \<lparr> purl = Some ''pkg:npm/a'' \<rparr>, \<lparr> purl = Some ''pkg:npm/b'' \<rparr>] \<rparr>"

definition sparse_env :: env where
  "sparse_env = scenario_env \<lparr> read_sbom := (\<lambda>path. Parsed sparse_sbom) \<rparr>"

text \<open>The package identity of a report tuple.\<close>

definition tuple_identity :: "string \<times> string \<times> verdict \<Rightarrow> string \<times> string" where
  "tuple_identity x = (fst x, fst (snd x))"

text \<open>Whether a command line gives \<open>--directory\<close>, and whether it gives \<open>--sbom-in\<close>.\<close>

fun is_directory :: "arg \<Rightarrow> bool" where
  "is_directory (Directory d) = True"
| "is_directory a = False"

fun is_sbom_in :: "arg \<Rightarrow> bool" where
  "is_sbom_in (SbomIn f) = True"
| "is_sbom_in a = False"

definition has_directory :: "arg list \<Rightarrow> bool" where
  "has_directory argv = list_ex is_directory argv"

definition has_sbom_in :: "arg list \<Rightarrow> bool" where
  "has_sbom_in argv = list_ex is_sbom_in argv"

text \<open>Environments in which one step fails: the scan returns 3, the SBOM file is
  missing, the report cannot be written.\<close>

definition scan_fails_env :: env where
  "scan_fails_env = scenario_env \<lparr> trivy_version := Returned 0,
     trivy_fs := (\<lambda>sbom_path dir. Returned 3) \<rparr>"

definition missing_env :: env where
  "missing_env = scenario_env
     \<lparr> read_sbom := (\<lambda>path. MissingFile ''[Errno 2] No such file or directory'') \<rparr>"

definition readonly_env :: env where
  "readonly_env = scenario_env
     \<lparr> write_file := (\<lambda>path content. Some ''[Errno 13] Permission denied'') \<rparr>"

section \<open>Properties\<close>

subsection \<open>Splitting and the identity parser\<close>

lemma takeWhile_notin: "sep \<notin> set s \<Longrightarrow> takeWhile (\<lambda>c. c \<noteq> sep) s = s"
  by (induction s) auto

lemma takeWhile_hit: "sep \<notin> set a \<Longrightarrow> takeWhile (\<lambda>c. c \<noteq> sep) (a @ sep # b) = a"
  by (induction a) auto

lemma dropWhile_hit: "sep \<notin> set a \<Longrightarrow> dropWhile (\<lambda>c. c \<noteq> sep) (a @ sep # b) = sep # b"
  by (induction a) auto

lemma split_once_hit: "sep \<notin> set a \<Longrightarrow> split_once sep (a @ sep # b) = [a, b]"
  by (simp add: split_once_def takeWhile_hit dropWhile_hit)

lemma split_once_miss: "sep \<notin> set s \<Longrightarrow> split_once sep s = [s]"
  by (simp add: split_once_def)

lemma index0_split_once: "index0 (split_once sep s) = Inr (takeWhile (\<lambda>c. c \<noteq> sep) s)"
  by (simp add: index0_def split_once_def takeWhile_notin)

lemma slash_after_colon:
  "CHR ''/'' \<in> set (tl (dropWhile (\<lambda>x. x \<noteq> CHR '':'') (a @ CHR '':'' # b @ CHR ''/'' # c)))"
  by (induction a) auto

lemma extract_no_colon:
  "CHR '':'' \<notin> set p \<Longrightarrow> extract_pkg_info p = Inr None"
  by (simp add: extract_pkg_info_def extract_pkg_info_try_def split_once_miss unpack2_def)

lemma extract_no_slash:
  "CHR '':'' \<notin> set a \<Longrightarrow> CHR ''/'' \<notin> set b \<Longrightarrow> extract_pkg_info (a @ CHR '':'' # b) = Inr None"
  by (simp add: extract_pkg_info_def extract_pkg_info_try_def split_once_hit split_once_miss
      unpack2_def)

lemma extract_shape:
  "CHR '':'' \<notin> set a \<Longrightarrow> CHR ''/'' \<notin> set b \<Longrightarrow>
   extract_pkg_info (a @ CHR '':'' # b @ CHR ''/'' # c)
     = Inr (Some (b, takeWhile (\<lambda>x. x \<noteq> CHR ''@'') c))"
  by (simp add: extract_pkg_info_def extract_pkg_info_try_def split_once_hit unpack2_def
      index0_split_once)

lemma first_colon_then_slash:
  assumes "p = a @ CHR '':'' # b @ CHR ''/'' # c"
  shows "\<exists>a' b' c'. p = a' @ CHR '':'' # b' @ CHR ''/'' # c' \<and> CHR '':'' \<notin> set a' \<and> CHR ''/'' \<notin> set b'"
proof -
  have "CHR '':'' \<in> set p" using assms by simp
  from split_list_first [OF this]
  obtain a' r where p: "p = a' @ CHR '':'' # r" and a': "CHR '':'' \<notin> set a'"
    by (elim exE conjE)
  have "dropWhile (\<lambda>x. x \<noteq> CHR '':'') p = CHR '':'' # r"
    unfolding p using a' by (rule dropWhile_hit)
  then have r: "r = tl (dropWhile (\<lambda>x. x \<noteq> CHR '':'') p)" by simp
  have "CHR ''/'' \<in> set r"
    unfolding r assms by (rule slash_after_colon)
  from split_list_first [OF this]
  obtain b' c' where r': "r = b' @ CHR ''/'' # c'" and b': "CHR ''/'' \<notin> set b'"
    by (elim exE conjE)
  have "p = a' @ CHR '':'' # b' @ CHR ''/'' # c' \<and> CHR '':'' \<notin> set a' \<and> CHR ''/'' \<notin> set b'"
    using p r' a' b' by simp
  then show ?thesis by (intro exI)
qed

lemma extract_shaped:
  assumes "\<exists>a b c. p = a @ CHR '':'' # b @ CHR ''/'' # c"
  shows "\<exists>eco rest. extract_pkg_info p = Inr (Some (eco, takeWhile (\<lambda>x. x \<noteq> CHR ''@'') rest))"
proof -
  from assms obtain a b c where "p = a @ CHR '':'' # b @ CHR ''/'' # c"
    by (elim exE)
  from first_colon_then_slash [OF this]
  obtain a' b' c' where p: "p = a' @ CHR '':'' # b' @ CHR ''/'' # c'"
    and a': "CHR '':'' \<notin> set a'" and b': "CHR ''/'' \<notin> set b'"
    by (elim exE conjE)
  have "extract_pkg_info p = Inr (Some (b', takeWhile (\<lambda>x. x \<noteq> CHR ''@'') c'))"
    unfolding p using a' b' by (rule extract_shape)
  then show ?thesis by (intro exI)
qed

lemma extract_unshaped:
  assumes n: "\<not> (\<exists>a b c. p = a @ CHR '':'' # b @ CHR ''/'' # c)"
  shows "extract_pkg_info p = Inr None"
proof (cases "CHR '':'' \<in> set p")
  case True
  from split_list_first [OF True]
  obtain a r where p: "p = a @ CHR '':'' # r" and a: "CHR '':'' \<notin> set a"
    by (elim exE conjE)
  have "CHR ''/'' \<notin> set r"
  proof
    assume "CHR ''/'' \<in> set r"
    from split_list [OF this] obtain b c where "r = b @ CHR ''/'' # c"
      by (elim exE)
    with p have "p = a @ CHR '':'' # b @ CHR ''/'' # c" by simp
    then have "\<exists>a b c. p = a @ CHR '':'' # b @ CHR ''/'' # c" by (intro exI)
    with n show False by (rule notE)
  qed
  with a show ?thesis unfolding p by (rule extract_no_slash)
next
  case False
  then show ?thesis by (rule extract_no_colon)
qed

text \<open>
  Claim C9. Identity parsing is total: for every input string \<open>extract_pkg_info\<close> returns
  normally (the result is never an uncaught exception); it returns a pair of strings
  whenever the input contains a \<open>:\<close> followed later by a \<open>/\<close>, and the pair
  \<open>(None, None)\<close> otherwise.
\<close>

theorem extract_pkg_info_total:
  "(\<exists>r. extract_pkg_info p = Inr r) \<and>
   ((\<exists>a b c. p = a @ CHR '':'' # b @ CHR ''/'' # c)
      \<longrightarrow> (\<exists>eco name. extract_pkg_info p = Inr (Some (eco, name)))) \<and>
   (\<not> (\<exists>a b c. p = a @ CHR '':'' # b @ CHR ''/'' # c) \<longrightarrow> extract_pkg_info p = Inr None)"
proof (cases "\<exists>a b c. p = a @ CHR '':'' # b @ CHR ''/'' # c")
  case True
  from extract_shaped [OF True] obtain eco rest
    where "extract_pkg_info p = Inr (Some (eco, takeWhile (\<lambda>x. x \<noteq> CHR ''@'') rest))"
    by (elim exE)
  with True show ?thesis by simp
next
  case False
  from extract_unshaped [OF False] False show ?thesis by simp
qed

theorem extract_pkg_info_total_witness:
  "(\<exists>a b c. ''pkg:npm/left-pad@1.0.0'' = a @ CHR '':'' # b @ CHR ''/'' # c) \<and>
   (\<exists>eco name. extract_pkg_info ''pkg:npm/left-pad@1.0.0'' = Inr (Some (eco, name))) \<and>
   \<not> (\<exists>a b c. ''left-pad'' = a @ CHR '':'' # b @ CHR ''/'' # c) \<and>
   extract_pkg_info ''left-pad'' = Inr None"
proof -
  have s: "\<exists>a b c. ''pkg:npm/left-pad@1.0.0'' = a @ CHR '':'' # b @ CHR ''/'' # c"
    by (rule exI [of _ "''pkg''"], rule exI [of _ "''npm''"], rule exI [of _ "''left-pad@1.0.0''"])
      simp
  have n: "\<not> (\<exists>a b c. ''left-pad'' = a @ CHR '':'' # b @ CHR ''/'' # c)"
  proof
    assume "\<exists>a b c. ''left-pad'' = a @ CHR '':'' # b @ CHR ''/'' # c"
    then obtain a b c where eq: "''left-pad'' = a @ CHR '':'' # b @ CHR ''/'' # c"
      by (elim exE)
    have "CHR '':'' \<in> set (a @ CHR '':'' # b @ CHR ''/'' # c)" by simp
    then have "CHR '':'' \<in> set ''left-pad''" unfolding eq [symmetric] .
    then show False by simp
  qed
  note t1 = extract_pkg_info_total [of "''pkg:npm/left-pad@1.0.0''",
      THEN conjunct2, THEN conjunct1, THEN mp, OF s]
  note t2 = extract_pkg_info_total [of "''left-pad''",
      THEN conjunct2, THEN conjunct2, THEN mp, OF n]
  show ?thesis by (intro conjI s t1 n t2)
qed

text \<open>
  Claim C3. For a purl \<open>scheme:ecosystem/rest\<close>, where the scheme has no \<open>:\<close> and the
  ecosystem no \<open>/\<close>, the parser drops the scheme at the first \<open>:\<close>, separates the ecosystem
  at the first \<open>/\<close> after it, and cuts the rest at its first \<open>@\<close>. So a name without \<open>@\<close>
  is returned as it is, with or without a version after it, and
  \<open>pkg:npm/left-pad@1.0.0\<close> yields exactly \<open>(npm, left-pad)\<close>.
\<close>

theorem extract_pkg_info_purl_form:
  "(CHR '':'' \<notin> set scheme \<and> CHR ''/'' \<notin> set ecosystem \<longrightarrow>
      extract_pkg_info (scheme @ '':'' @ ecosystem @ ''/'' @ rest)
        = Inr (Some (ecosystem, takeWhile (\<lambda>c. c \<noteq> CHR ''@'') rest))) \<and>
   (CHR '':'' \<notin> set scheme \<and> CHR ''/'' \<notin> set ecosystem \<and> CHR ''@'' \<notin> set name \<longrightarrow>
      extract_pkg_info (scheme @ '':'' @ ecosystem @ ''/'' @ name) = Inr (Some (ecosystem, name)) \<and>
      extract_pkg_info (scheme @ '':'' @ ecosystem @ ''/'' @ name @ ''@'' @ tail)
        = Inr (Some (ecosystem, name))) \<and>
   extract_pkg_info ''pkg:npm/left-pad@1.0.0'' = Inr (Some (''npm'', ''left-pad''))"
proof (intro conjI impI)
  assume "CHR '':'' \<notin> set scheme \<and> CHR ''/'' \<notin> set ecosystem"
  then show "extract_pkg_info (scheme @ '':'' @ ecosystem @ ''/'' @ rest)
      = Inr (Some (ecosystem, takeWhile (\<lambda>c. c \<noteq> CHR ''@'') rest))"
    by (simp add: extract_shape)
next
  assume h: "CHR '':'' \<notin> set scheme \<and> CHR ''/'' \<notin> set ecosystem \<and> CHR ''@'' \<notin> set name"
  then have "takeWhile (\<lambda>c. c \<noteq> CHR ''@'') name = name"
    by (simp add: takeWhile_notin)
  with h show "extract_pkg_info (scheme @ '':'' @ ecosystem @ ''/'' @ name)
      = Inr (Some (ecosystem, name))"
    by (simp add: extract_shape)
next
  assume h: "CHR '':'' \<notin> set scheme \<and> CHR ''/'' \<notin> set ecosystem \<and> CHR ''@'' \<notin> set name"
  then have "takeWhile (\<lambda>c. c \<noteq> CHR ''@'') (name @ CHR ''@'' # tail) = name"
    by (simp add: takeWhile_hit)
  with h show "extract_pkg_info (scheme @ '':'' @ ecosystem @ ''/'' @ name @ ''@'' @ tail)
      = Inr (Some (ecosystem, name))"
    by (simp add: extract_shape)
next
  show "extract_pkg_info ''pkg:npm/left-pad@1.0.0'' = Inr (Some (''npm'', ''left-pad''))"
    using extract_shape [of "''pkg''" "''npm''" "''left-pad@1.0.0''"] by simp
qed

theorem extract_pkg_info_purl_form_witness:
  "CHR '':'' \<notin> set ''pkg'' \<and> CHR ''/'' \<notin> set ''pypi'' \<and> CHR ''@'' \<notin> set ''requests'' \<and>
   extract_pkg_info ''pkg:pypi/requests@2.31.0?x=y'' = Inr (Some (''pypi'', ''requests'')) \<and>
   extract_pkg_info ''pkg:pypi/requests'' = Inr (Some (''pypi'', ''requests''))"
  using extract_pkg_info_purl_form [of "''pkg''" "''pypi''" "''requests@2.31.0?x=y''" "''requests''" "''2.31.0?x=y''"]
  by simp

subsection \<open>The registry check and the loop over the purls\<close>

lemma requested_append: "requested (t @ u) = requested t @ requested u"
  by (simp add: requested_def)

lemma requested_Stderr: "requested (t @ [Stderr m]) = requested t"
  by (simp add: requested_def)

lemma cpr_requested:
  "requested (snd (check_public_registry ev eco name t))
     = requested t @ (case registry_url eco name of None \<Rightarrow> [] | Some u \<Rightarrow> [u])"
  by (simp add: check_public_registry_def Let_def requested_def split: option.split http.split)

lemma cpr_fst_cong:
  "requested t = requested t' \<Longrightarrow>
   fst (check_public_registry ev eco name t) = fst (check_public_registry ev eco name t')"
  by (simp add: check_public_registry_def Let_def split: option.split http.split)

lemma extract_not_raised: "\<exists>r. extract_pkg_info p = Inr r"
proof (cases "\<exists>a b c. p = a @ CHR '':'' # b @ CHR ''/'' # c")
  case True
  from extract_shaped [OF True] show ?thesis by (elim exE) simp
next
  case False
  from extract_unshaped [OF False] show ?thesis by simp
qed

lemma check_purls_skip:
  assumes "identity p = None"
  shows "check_purls ev (p # ps) ls t
           = check_purls ev ps ls (t @ [Stderr (''Skipping invalid PURL: '' @ p)])"
proof -
  obtain r where r: "extract_pkg_info p = Inr r"
    using extract_not_raised [of p] by (elim exE)
  show ?thesis
  proof (cases r)
    case None
    with r show ?thesis by simp
  next
    case (Some x)
    obtain eco name where x: "x = (eco, name)" by (cases x)
    from assms r Some x have "eco = [] \<or> name = []"
      by (simp add: identity_def split: if_splits)
    with r Some x show ?thesis by simp
  qed
qed

lemma check_purls_keep:
  assumes "identity p = Some (eco, name)"
  shows "check_purls ev (p # ps) ls t
           = check_purls ev ps (ls @ [report_line eco name (fst (check_public_registry ev eco name t))])
               (snd (check_public_registry ev eco name t))"
proof -
  from assms have e: "extract_pkg_info p = Inr (Some (eco, name))" and n: "\<not> (eco = [] \<or> name = [])"
    by (simp_all add: identity_def split: sum.splits option.splits prod.splits if_splits)
  show ?thesis using e n by (simp add: case_prod_beta)
qed

lemma check_purls_lines:
  "fst (check_purls ev ps ls t) = Inr (ls @ map tuple_line (verdicts ev ps t))"
proof (induction ps arbitrary: ls t)
  case Nil
  show ?case by simp
next
  case (Cons p ps)
  show ?case
  proof (cases "identity p")
    case None
    then show ?thesis by (simp add: check_purls_skip Cons.IH del: check_purls.simps(2))
  next
    case (Some x)
    obtain eco name where x: "x = (eco, name)" by (cases x)
    with Some have i: "identity p = Some (eco, name)" by simp
    show ?thesis by (simp add: check_purls_keep [OF i] Cons.IH i tuple_line_def del: check_purls.simps(2))
  qed
qed

lemma check_purls_requested:
  "requested t = requested t' \<Longrightarrow>
   requested (snd (check_purls ev ps ls t)) = requested (snd (check_purls ev ps ls' t'))"
proof (induction ps arbitrary: ls ls' t t')
  case Nil
  then show ?case by simp
next
  case (Cons p ps)
  show ?case
  proof (cases "identity p")
    case None
    have "requested (t @ [Stderr (''Skipping invalid PURL: '' @ p)])
          = requested (t' @ [Stderr (''Skipping invalid PURL: '' @ p)])"
      using Cons.prems by (simp add: requested_Stderr)
    from Cons.IH [OF this] show ?thesis by (simp add: check_purls_skip [OF None] del: check_purls.simps(2))
  next
    case (Some x)
    obtain eco name where x: "x = (eco, name)" by (cases x)
    with Some have i: "identity p = Some (eco, name)" by simp
    have "requested (snd (check_public_registry ev eco name t))
          = requested (snd (check_public_registry ev eco name t'))"
      using Cons.prems by (simp add: cpr_requested)
    from Cons.IH [OF this] show ?thesis by (simp add: check_purls_keep [OF i] del: check_purls.simps(2))
  qed
qed

lemma verdicts_cong:
  "requested t = requested t' \<Longrightarrow> verdicts ev ps t = verdicts ev ps t'"
proof (induction ps arbitrary: t t')
  case Nil
  show ?case by simp
next
  case (Cons p ps)
  show ?case
  proof (cases "identity p")
    case None
    have "requested (t @ [Stderr (''Skipping invalid PURL: '' @ p)])
          = requested (t' @ [Stderr (''Skipping invalid PURL: '' @ p)])"
      using Cons.prems by (simp add: requested_Stderr)
    from Cons.IH [OF this] show ?thesis by (simp add: None)
  next
    case (Some x)
    obtain eco name where x: "x = (eco, name)" by (cases x)
    with Some have i: "identity p = Some (eco, name)" by simp
    have "requested (snd (check_public_registry ev eco name t))
          = requested (snd (check_public_registry ev eco name t'))"
      using Cons.prems by (simp add: cpr_requested)
    from Cons.IH [OF this] cpr_fst_cong [OF Cons.prems, of ev eco name]
    show ?thesis by (simp add: i)
  qed
qed

lemma check_purls_returns: "\<exists>ls' t'. check_purls ev ps ls t = (Inr ls', t')"
proof -
  have "fst (check_purls ev ps ls t) = Inr (ls @ map tuple_line (verdicts ev ps t))"
    by (rule check_purls_lines)
  then have "check_purls ev ps ls t
      = (Inr (ls @ map tuple_line (verdicts ev ps t)), snd (check_purls ev ps ls t))"
    by (simp add: prod_eq_iff)
  then show ?thesis by (intro exI)
qed

lemma check_purls_append:
  "check_purls ev (xs @ ys) ls t
     = check_purls ev ys (ls @ map tuple_line (verdicts ev xs t)) (snd (check_purls ev xs ls t))"
proof (induction xs arbitrary: ls t)
  case Nil
  show ?case by simp
next
  case (Cons p ps)
  show ?case
  proof (cases "identity p")
    case None
    then show ?thesis by (simp add: check_purls_skip Cons.IH del: check_purls.simps(2))
  next
    case (Some x)
    obtain eco name where x: "x = (eco, name)" by (cases x)
    with Some have i: "identity p = Some (eco, name)" by simp
    show ?thesis by (simp add: check_purls_keep [OF i] Cons.IH i tuple_line_def del: check_purls.simps(2))
  qed
qed

subsection \<open>Purls that are skipped\<close>

lemma identity_unshaped:
  assumes "\<not> (\<exists>a b c. p = a @ CHR '':'' # b @ CHR ''/'' # c)"
  shows "identity p = None"
  using extract_unshaped [OF assms] by (simp add: identity_def)

lemma check_purls_drop_skipped:
  assumes "identity p = None"
  shows "fst (check_purls ev (xs @ p # ys) ls t) = fst (check_purls ev (xs @ ys) ls t)"
proof -
  let ?u = "snd (check_purls ev xs ls t)"
  have "verdicts ev (p # ys) ?u = verdicts ev ys (?u @ [Stderr (''Skipping invalid PURL: '' @ p)])"
    using assms by simp
  also have "\<dots> = verdicts ev ys ?u"
    by (rule verdicts_cong) (rule requested_Stderr)
  finally have "verdicts ev (p # ys) ?u = verdicts ev ys ?u" .
  then show ?thesis
    by (simp only: check_purls_append check_purls_lines)
qed

lemma left_pad_unshaped: "\<not> (\<exists>a b c. ''left-pad'' = a @ CHR '':'' # b @ CHR ''/'' # c)"
proof
  assume "\<exists>a b c. ''left-pad'' = a @ CHR '':'' # b @ CHR ''/'' # c"
  then obtain a b c where eq: "''left-pad'' = a @ CHR '':'' # b @ CHR ''/'' # c"
    by (elim exE)
  have "CHR '':'' \<in> set (a @ CHR '':'' # b @ CHR ''/'' # c)" by simp
  then have "CHR '':'' \<in> set ''left-pad''" unfolding eq [symmetric] .
  then show False by simp
qed

text \<open>
  Claim C5. A purl that fails the expected shape (no \<open>:\<close>, or no \<open>/\<close> after it) parses to
  \<open>(None, None)\<close>. The loop of \<open>main\<close> then logs it as invalid and goes on with the
  remaining purls in the same state: no registry is asked, no report line is added, the
  report is the one of the run without that purl, and the loop returns normally.
\<close>

theorem invalid_purl_skipped:
  assumes "\<not> (\<exists>a b c. p = a @ CHR '':'' # b @ CHR ''/'' # c)"
  shows "extract_pkg_info p = Inr None \<and>
         check_purls ev (p # ps) ls t
           = check_purls ev ps ls (t @ [Stderr (''Skipping invalid PURL: '' @ p)]) \<and>
         requested (t @ [Stderr (''Skipping invalid PURL: '' @ p)]) = requested t \<and>
         fst (check_purls ev (xs @ p # ys) ls t) = fst (check_purls ev (xs @ ys) ls t) \<and>
         (\<exists>ls' t'. check_purls ev (xs @ p # ys) ls t = (Inr ls', t'))"
proof (intro conjI)
  show "extract_pkg_info p = Inr None" using assms by (rule extract_unshaped)
  show "check_purls ev (p # ps) ls t
           = check_purls ev ps ls (t @ [Stderr (''Skipping invalid PURL: '' @ p)])"
    using identity_unshaped [OF assms] by (rule check_purls_skip)
  show "requested (t @ [Stderr (''Skipping invalid PURL: '' @ p)]) = requested t"
    by (rule requested_Stderr)
  show "fst (check_purls ev (xs @ p # ys) ls t) = fst (check_purls ev (xs @ ys) ls t)"
    using identity_unshaped [OF assms] by (rule check_purls_drop_skipped)
  show "\<exists>ls' t'. check_purls ev (xs @ p # ys) ls t = (Inr ls', t')"
    by (rule check_purls_returns)
qed

theorem invalid_purl_skipped_witness:
  "\<not> (\<exists>a b c. ''left-pad'' = a @ CHR '':'' # b @ CHR ''/'' # c) \<and>
   extract_pkg_info ''left-pad'' = Inr None \<and>
   check_purls scenario_env [''left-pad''] [] []
     = (Inr [], [Stderr ''Skipping invalid PURL: left-pad''])"
  using left_pad_unshaped
    invalid_purl_skipped [OF left_pad_unshaped, of scenario_env "[]" "[]" "[]" "[]" "[]"]
  by simp

text \<open>
  Claim C10. A purl whose parsed ecosystem or version-stripped name is empty is treated
  like a purl that fails to parse, although the splits succeed: the loop logs it as
  invalid, asks no registry, adds no report line, and the report is the one of the run
  without that purl. The purls \<open>pkg:/name\<close> and \<open>pkg:npm/@1.0.0\<close> are of this kind.
\<close>

theorem empty_identity_skipped:
  "(extract_pkg_info p = Inr (Some (eco, name)) \<and> (eco = [] \<or> name = []) \<longrightarrow>
      check_purls ev (p # ps) ls t
        = check_purls ev ps ls (t @ [Stderr (''Skipping invalid PURL: '' @ p)]) \<and>
      requested (t @ [Stderr (''Skipping invalid PURL: '' @ p)]) = requested t \<and>
      fst (check_purls ev (xs @ p # ys) ls t) = fst (check_purls ev (xs @ ys) ls t)) \<and>
   extract_pkg_info ''pkg:/name'' = Inr (Some ([], ''name'')) \<and>
   extract_pkg_info ''pkg:npm/@1.0.0'' = Inr (Some (''npm'', []))"
proof (intro conjI impI)
  assume h: "extract_pkg_info p = Inr (Some (eco, name)) \<and> (eco = [] \<or> name = [])"
  then have i: "identity p = None" by (simp add: identity_def)
  show "check_purls ev (p # ps) ls t
         = check_purls ev ps ls (t @ [Stderr (''Skipping invalid PURL: '' @ p)])"
    using i by (rule check_purls_skip)
  show "requested (t @ [Stderr (''Skipping invalid PURL: '' @ p)]) = requested t"
    by (rule requested_Stderr)
  show "fst (check_purls ev (xs @ p # ys) ls t) = fst (check_purls ev (xs @ ys) ls t)"
    using i by (rule check_purls_drop_skipped)
next
  show "extract_pkg_info ''pkg:/name'' = Inr (Some ([], ''name''))"
    using extract_shape [of "''pkg''" "[]" "''name''"] by simp
  show "extract_pkg_info ''pkg:npm/@1.0.0'' = Inr (Some (''npm'', []))"
    using extract_shape [of "''pkg''" "''npm''" "''@1.0.0''"] by simp
qed

theorem empty_identity_skipped_witness:
  "extract_pkg_info ''pkg:npm/@1.0.0'' = Inr (Some (''npm'', [])) \<and>
   check_purls scenario_env [''pkg:npm/@1.0.0''] [] []
     = (Inr [], [Stderr ''Skipping invalid PURL: pkg:npm/@1.0.0''])"
  using empty_identity_skipped [of "''pkg:npm/@1.0.0''" "''npm''" "[]" scenario_env "[]" "[]" "[]" "[]" "[]"]
  by simp

subsection \<open>Registry existence checker\<close>

lemma registry_url_supported:
  "ecosystem = ''pypi'' \<or> ecosystem = ''npm'' \<Longrightarrow>
   registry_url ecosystem name
     = Some (if ecosystem = ''pypi'' then ''https://pypi.org/pypi/'' @ name @ ''/json''
             else ''https://registry.npmjs.org/'' @ name)"
  by (auto simp: registry_url_def)

lemma registry_url_unsupported:
  "ecosystem \<noteq> ''pypi'' \<Longrightarrow> ecosystem \<noteq> ''npm'' \<Longrightarrow> registry_url ecosystem name = None"
  by (simp add: registry_url_def)

lemma cpr_response:
  assumes "registry_url ecosystem name = Some url"
    and "registry ev (requested t) url = Response status"
  shows "check_public_registry ev ecosystem name t =
     (if status = 404 then (Some False, t @ [HttpGet url])
      else if status = 200 then (Some True, t @ [HttpGet url])
      else (None, t @ [HttpGet url,
              Stderr (''Warning: Unexpected status '' @ str_int status @ '' for ''
                      @ ecosystem @ ''/'' @ name)]))"
  using assms by (simp add: check_public_registry_def Let_def)

lemma cpr_exception:
  assumes "registry_url ecosystem name = Some url"
    and "registry ev (requested t) url = RequestException e"
  shows "check_public_registry ev ecosystem name t =
     (None, t @ [HttpGet url,
        Stderr (''Error: Network error when checking '' @ ecosystem @ ''/'' @ name
                @ '': '' @ e)])"
  using assms by (simp add: check_public_registry_def Let_def)

text \<open>
  Claim C1. For a supported ecosystem (\<open>pypi\<close> or \<open>npm\<close>) the registry check makes exactly
  one request, to the URL of that ecosystem, and the reply decides the verdict: status 404
  is NotFoundPublicly, 200 is ExistsPublicly, any other status is Unknown with a warning on
  the error stream, a network failure is Unknown with an error on the error stream. For
  any other ecosystem the check is Unknown and nothing is requested or logged. The check
  always returns a verdict, and the loop goes on with the next purl whatever it is.
\<close>

theorem check_public_registry_verdict:
  "(ecosystem = ''pypi'' \<or> ecosystem = ''npm'' \<longrightarrow>
      (let url = (if ecosystem = ''pypi'' then ''https://pypi.org/pypi/'' @ name @ ''/json''
                  else ''https://registry.npmjs.org/'' @ name);
           reply = registry ev (requested t) url;
           result = check_public_registry ev ecosystem name t
       in requested (snd result) = requested t @ [url] \<and>
          (reply = Response 404 \<longrightarrow> result = (NotFoundPublicly, t @ [HttpGet url])) \<and>
          (reply = Response 200 \<longrightarrow> result = (ExistsPublicly, t @ [HttpGet url])) \<and>
          (\<forall>status. reply = Response status \<and> status \<noteq> 404 \<and> status \<noteq> 200 \<longrightarrow>
             result = (Unknown, t @ [HttpGet url,
               Stderr (''Warning: Unexpected status '' @ str_int status @ '' for ''
                       @ ecosystem @ ''/'' @ name)])) \<and>
          (\<forall>e. reply = RequestException e \<longrightarrow>
             result = (Unknown, t @ [HttpGet url,
               Stderr (''Error: Network error when checking '' @ ecosystem @ ''/'' @ name
                       @ '': '' @ e)])))) \<and>
   (ecosystem \<noteq> ''pypi'' \<and> ecosystem \<noteq> ''npm'' \<longrightarrow>
      check_public_registry ev ecosystem name t = (Unknown, t)) \<and>
   (identity p = Some (ecosystem, name) \<longrightarrow>
      check_purls ev (p # ps) ls t
        = check_purls ev ps
            (ls @ [report_line ecosystem name (fst (check_public_registry ev ecosystem name t))])
            (snd (check_public_registry ev ecosystem name t)))"
proof (intro conjI impI)
  assume s: "ecosystem = ''pypi'' \<or> ecosystem = ''npm''"
  let ?url = "if ecosystem = ''pypi'' then ''https://pypi.org/pypi/'' @ name @ ''/json''
              else ''https://registry.npmjs.org/'' @ name"
  note u = registry_url_supported [OF s, of name]
  have r: "requested (snd (check_public_registry ev ecosystem name t)) = requested t @ [?url]"
    by (simp only: cpr_requested u option.case)
  have a: "registry ev (requested t) ?url = Response 404 \<longrightarrow>
      check_public_registry ev ecosystem name t = (NotFoundPublicly, t @ [HttpGet ?url])"
    using cpr_response [OF u, of ev t 404] by simp
  have b: "registry ev (requested t) ?url = Response 200 \<longrightarrow>
      check_public_registry ev ecosystem name t = (ExistsPublicly, t @ [HttpGet ?url])"
    using cpr_response [OF u, of ev t 200] by simp
  have c: "\<forall>status. registry ev (requested t) ?url = Response status \<and> status \<noteq> 404 \<and> status \<noteq> 200 \<longrightarrow>
      check_public_registry ev ecosystem name t = (Unknown, t @ [HttpGet ?url,
               Stderr (''Warning: Unexpected status '' @ str_int status @ '' for ''
                       @ ecosystem @ ''/'' @ name)])"
  proof (intro allI impI)
    fix status
    assume h: "registry ev (requested t) ?url = Response status \<and> status \<noteq> 404 \<and> status \<noteq> 200"
    then have "registry ev (requested t) ?url = Response status" by (rule conjunct1)
    from cpr_response [OF u this] h
    show "check_public_registry ev ecosystem name t = (Unknown, t @ [HttpGet ?url,
               Stderr (''Warning: Unexpected status '' @ str_int status @ '' for ''
                       @ ecosystem @ ''/'' @ name)])"
      by simp
  qed
  have d: "\<forall>e. registry ev (requested t) ?url = RequestException e \<longrightarrow>
      check_public_registry ev ecosystem name t = (Unknown, t @ [HttpGet ?url,
               Stderr (''Error: Network error when checking '' @ ecosystem @ ''/'' @ name
                       @ '': '' @ e)])"
  proof (intro allI impI)
    fix e
    assume "registry ev (requested t) ?url = RequestException e"
    from cpr_exception [OF u this]
    show "check_public_registry ev ecosystem name t = (Unknown, t @ [HttpGet ?url,
               Stderr (''Error: Network error when checking '' @ ecosystem @ ''/'' @ name
                       @ '': '' @ e)])" .
  qed
  from r a b c d
  show "let url = ?url;
           reply = registry ev (requested t) url;
           result = check_public_registry ev ecosystem name t
       in requested (snd result) = requested t @ [url] \<and>
          (reply = Response 404 \<longrightarrow> result = (NotFoundPublicly, t @ [HttpGet url])) \<and>
          (reply = Response 200 \<longrightarrow> result = (ExistsPublicly, t @ [HttpGet url])) \<and>
          (\<forall>status. reply = Response status \<and> status \<noteq> 404 \<and> status \<noteq> 200 \<longrightarrow>
             result = (Unknown, t @ [HttpGet url,
               Stderr (''Warning: Unexpected status '' @ str_int status @ '' for ''
                       @ ecosystem @ ''/'' @ name)])) \<and>
          (\<forall>e. reply = RequestException e \<longrightarrow>
             result = (Unknown, t @ [HttpGet url,
               Stderr (''Error: Network error when checking '' @ ecosystem @ ''/'' @ name
                       @ '': '' @ e)]))"
    unfolding Let_def by (intro conjI)
next
  assume "ecosystem \<noteq> ''pypi'' \<and> ecosystem \<noteq> ''npm''"
  then have "registry_url ecosystem name = None" by (simp add: registry_url_unsupported)
  then show "check_public_registry ev ecosystem name t = (Unknown, t)"
    by (simp add: check_public_registry_def)
next
  assume "identity p = Some (ecosystem, name)"
  then show "check_purls ev (p # ps) ls t
        = check_purls ev ps
            (ls @ [report_line ecosystem name (fst (check_public_registry ev ecosystem name t))])
            (snd (check_public_registry ev ecosystem name t))"
    by (rule check_purls_keep)
qed

lemma str_int_500: "str_int 500 = ''500''"
  by code_simp

theorem check_public_registry_verdict_witness:
  "check_public_registry scenario_env ''pypi'' ''requests'' []
     = (ExistsPublicly, [HttpGet ''https://pypi.org/pypi/requests/json'']) \<and>
   check_public_registry scenario_env ''npm'' ''left-pad'' []
     = (NotFoundPublicly, [HttpGet ''https://registry.npmjs.org/left-pad'']) \<and>
   check_public_registry scenario_env ''npm'' ''x'' []
     = (Unknown, [HttpGet ''https://registry.npmjs.org/x'',
                  Stderr ''Warning: Unexpected status 500 for npm/x'']) \<and>
   check_public_registry offline_env ''npm'' ''x'' []
     = (Unknown, [HttpGet ''https://registry.npmjs.org/x'',
                  Stderr ''Error: Network error when checking npm/x: timed out'']) \<and>
   check_public_registry scenario_env ''maven'' ''x'' [] = (Unknown, [])"
  using check_public_registry_verdict [of "''pypi''" "''requests''" scenario_env "[]"]
    check_public_registry_verdict [of "''npm''" "''left-pad''" scenario_env "[]"]
    check_public_registry_verdict [of "''npm''" "''x''" scenario_env "[]"]
    check_public_registry_verdict [of "''npm''" "''x''" offline_env "[]"]
    check_public_registry_verdict [of "''maven''" "''x''" scenario_env "[]"]
  by (simp add: Let_def scenario_env_def offline_env_def scenario_registry_def requested_def
      str_int_500)

subsection \<open>Purl extractor\<close>

lemma sorted_set_props:
  "sorted (sorted_set xs)" "distinct (sorted_set xs)" "set (sorted_set xs) = set xs"
  "length (sorted_set xs) \<le> length xs"
  by (simp_all add: sorted_set_def)

lemma truthy_purls_set:
  "(\<lambda>comp. the (purl comp)) ` {comp \<in> set cs. truthy (purl comp)}
     = {p. p \<noteq> [] \<and> Some p \<in> purl ` set cs}"
proof (intro set_eqI iffI)
  fix p
  assume "p \<in> (\<lambda>comp. the (purl comp)) ` {comp \<in> set cs. truthy (purl comp)}"
  then obtain comp where c: "comp \<in> set cs" "truthy (purl comp)" "p = the (purl comp)"
    by auto
  then have e: "purl comp = Some p" and n: "p \<noteq> []"
    by (auto simp: truthy_def split: option.splits)
  have "Some p \<in> purl ` set cs"
    using e [symmetric] c(1) by (rule image_eqI)
  with n show "p \<in> {p. p \<noteq> [] \<and> Some p \<in> purl ` set cs}" by simp
next
  fix p
  assume "p \<in> {p. p \<noteq> [] \<and> Some p \<in> purl ` set cs}"
  then have "p \<noteq> []" and "Some p \<in> purl ` set cs" by simp_all
  then obtain comp where c: "comp \<in> set cs" "purl comp = Some p"
    by (auto simp: image_iff)
  with \<open>p \<noteq> []\<close> have t: "truthy (purl comp)" and e: "p = the (purl comp)"
    by (simp_all add: truthy_def)
  from c(1) t have "comp \<in> {comp \<in> set cs. truthy (purl comp)}" by simp
  with e show "p \<in> (\<lambda>comp. the (purl comp)) ` {comp \<in> set cs. truthy (purl comp)}"
    by (rule image_eqI)
qed

lemma purls_of_set:
  "set (purls_of data)
     = {p. p \<noteq> [] \<and> Some p \<in> purl ` set (case components data of None \<Rightarrow> [] | Some cs \<Rightarrow> cs)}"
proof -
  have "set (purls_of data)
      = (\<lambda>comp. the (purl comp)) `
          {comp \<in> set (case components data of None \<Rightarrow> [] | Some cs \<Rightarrow> cs). truthy (purl comp)}"
    by (simp add: purls_of_def Let_def sorted_set_props)
  then show ?thesis by (simp only: truthy_purls_set)
qed

text \<open>
  Claim C2. For an SBOM document with N components, K of which carry a non-empty
  \<open>purl\<close>, purl extraction returns the purl strings of those components and nothing
  else: the result is sorted lexically, has no duplicates and no empty string, and its
  length is at most K (and K is at most N). Components without a purl are skipped.
\<close>

theorem parse_purls_sorted_unique:
  "read_sbom ev sbom_path = Parsed data \<longrightarrow>
     (let comps = (case components data of None \<Rightarrow> [] | Some cs \<Rightarrow> cs);
          with_purl = filter (\<lambda>comp. truthy (purl comp)) comps;
          purls = purls_of data
      in parse_purls ev sbom_path t = (Inr purls, t @ [ReadSbom sbom_path]) \<and>
         sorted purls \<and> distinct purls \<and>
         length purls \<le> length with_purl \<and> length with_purl \<le> length comps \<and>
         (\<forall>p \<in> set purls. p \<noteq> []) \<and>
         set purls = {p. p \<noteq> [] \<and> Some p \<in> purl ` set comps})"
proof
  assume r: "read_sbom ev sbom_path = Parsed data"
  let ?cs = "case components data of None \<Rightarrow> [] | Some cs \<Rightarrow> cs"
  have 1: "parse_purls ev sbom_path t = (Inr (purls_of data), t @ [ReadSbom sbom_path])"
    using r by (simp add: parse_purls_def Let_def)
  have 2: "sorted (purls_of data)" "distinct (purls_of data)"
    by (simp_all add: purls_of_def Let_def sorted_set_props)
  have 3: "length (purls_of data) \<le> length (filter (\<lambda>comp. truthy (purl comp)) ?cs)"
    using sorted_set_props(4) [of "map (\<lambda>comp. the (purl comp)) (filter (\<lambda>comp. truthy (purl comp)) ?cs)"]
    by (simp add: purls_of_def Let_def)
  have 4: "length (filter (\<lambda>comp. truthy (purl comp)) ?cs) \<le> length ?cs"
    by (rule length_filter_le)
  have 5: "set (purls_of data) = {p. p \<noteq> [] \<and> Some p \<in> purl ` set ?cs}"
    by (rule purls_of_set)
  then have 6: "\<forall>p \<in> set (purls_of data). p \<noteq> []" by simp
  from 1 2 3 4 5 6
  show "let comps = ?cs;
          with_purl = filter (\<lambda>comp. truthy (purl comp)) comps;
          purls = purls_of data
      in parse_purls ev sbom_path t = (Inr purls, t @ [ReadSbom sbom_path]) \<and>
         sorted purls \<and> distinct purls \<and>
         length purls \<le> length with_purl \<and> length with_purl \<le> length comps \<and>
         (\<forall>p \<in> set purls. p \<noteq> []) \<and>
         set purls = {p. p \<noteq> [] \<and> Some p \<in> purl ` set comps}"
    unfolding Let_def by (intro conjI)
qed

lemma purls_of_sparse: "purls_of sparse_sbom = [''pkg:npm/a'', ''pkg:npm/b'']"
  by code_simp

theorem parse_purls_sorted_unique_witness:
  "read_sbom sparse_env ''sbom.json'' = Parsed sparse_sbom \<and>
   parse_purls sparse_env ''sbom.json'' []
     = (Inr [''pkg:npm/a'', ''pkg:npm/b''], [ReadSbom ''sbom.json'']) \<and>
   sorted [''pkg:npm/a'', ''pkg:npm/b'']"
proof -
  have r: "read_sbom sparse_env ''sbom.json'' = Parsed sparse_sbom"
    by (simp add: sparse_env_def)
  from parse_purls_sorted_unique [of sparse_env "''sbom.json''" sparse_sbom "[]", THEN mp, OF r]
  have "parse_purls sparse_env ''sbom.json'' [] = (Inr (purls_of sparse_sbom), [] @ [ReadSbom ''sbom.json''])
        \<and> sorted (purls_of sparse_sbom)"
    unfolding Let_def by (elim conjE) (intro conjI)
  with r show ?thesis by (simp only: purls_of_sparse append_Nil simp_thms)
qed

subsection \<open>One verdict per purl\<close>

lemma tuple_identity_simp: "tuple_identity (eco, name, v) = (eco, name)"
  by (simp add: tuple_identity_def)

lemma check_purls_case:
  "(case check_purls ev ps [] t of (Inl out, t4) \<Rightarrow> f out t4 | (Inr ls, t4) \<Rightarrow> g ls t4)
     = g (map tuple_line (verdicts ev ps t)) (snd (check_purls ev ps [] t))"
proof -
  obtain a b where ab: "check_purls ev ps [] t = (a, b)" by (cases "check_purls ev ps [] t")
  with check_purls_lines [of ev ps "[]" t] have "a = Inr (map tuple_line (verdicts ev ps t))"
    by simp
  with ab show ?thesis by simp
qed

lemma verdicts_identities:
  "map tuple_identity (verdicts ev ps t) = map (the \<circ> identity) (filter (\<lambda>p. identity p \<noteq> None) ps)"
proof (induction ps arbitrary: t)
  case Nil
  show ?case by simp
next
  case (Cons p ps)
  show ?case
  proof (cases "identity p")
    case None
    then show ?thesis by (simp add: Cons.IH)
  next
    case (Some x)
    obtain eco name where x: "x = (eco, name)" by (cases x)
    with Some have i: "identity p = Some (eco, name)" by simp
    show ?thesis by (simp add: i Cons.IH tuple_identity_simp)
  qed
qed

lemma verdicts_length:
  "length (verdicts ev ps t) = length (filter (\<lambda>p. identity p \<noteq> None) ps)"
  using verdicts_identities [of ev ps t, THEN arg_cong, of length] by simp

lemma main_sbom_in:
  assumes "read_sbom ev f = Parsed data"
  shows "main ev [SbomIn f] =
     (let purls = purls_of data;
          t2 = [ReadSbom f];
          t3 = (if purls = [] then t2 @ [Stderr ''No PURLs found in SBOM.''] else t2)
      in write_report ev ''dependency_confusion_report.txt''
           (map tuple_line (verdicts ev purls t3)) (snd (check_purls ev purls [] t3)))"
proof -
  have p: "parse_args [SbomIn f]
      = Inr (defaults \<lparr> sbom_in := Some f \<rparr>)"
    by (simp add: parse_args_def defaults_def)
  have s: "sbom_source ev (defaults \<lparr> sbom_in := Some f \<rparr>) [] = (Inr f, [])"
    by (simp add: sbom_source_def)
  have q: "parse_purls ev f [] = (Inr (purls_of data), [ReadSbom f])"
    using assms by (simp add: parse_purls_def Let_def)
  have r: "report_out (defaults \<lparr> sbom_in := Some f \<rparr>) = ''dependency_confusion_report.txt''"
    by (simp add: defaults_def)
  show ?thesis
    by (simp add: main_def p s q r Let_def check_purls_case)
qed


lemma identity_left_pad_100: "identity ''pkg:npm/left-pad@1.0.0'' = Some (''npm'', ''left-pad'')"
  by code_simp

lemma identity_left_pad_101: "identity ''pkg:npm/left-pad@1.0.1'' = Some (''npm'', ''left-pad'')"
  by code_simp

lemma identity_requests: "identity ''pkg:pypi/requests@2.31.0'' = Some (''pypi'', ''requests'')"
  by code_simp

lemma purls_of_scenario:
  "purls_of scenario_sbom = [''pkg:npm/left-pad@1.0.0'', ''pkg:pypi/requests@2.31.0'']"
  by code_simp

lemma purls_of_two_versions:
  "purls_of two_versions_sbom = [''pkg:npm/left-pad@1.0.0'', ''pkg:npm/left-pad@1.0.1'']"
  by code_simp

lemma main_scenario:
  "main scenario_env [SbomIn ''sbom.json''] =
     (Exit 0,
      [ReadSbom ''sbom.json'', HttpGet ''https://registry.npmjs.org/left-pad'',
       HttpGet ''https://pypi.org/pypi/requests/json'',
       WriteReport ''dependency_confusion_report.txt''
         ''[OK]   npm   left-pad not found publicly\<newline>[WARN] pypi  requests EXISTS publicly - potential collision'',
       Stdout ''Dependency confusion report written to dependency_confusion_report.txt''])"
  by code_simp

text \<open>
  Claim C4 as stated fails. It says that every run has one verdict per distinct package
  identity, also when the SBOM lists one package under two purls. The SBOM with
  \<open>pkg:npm/left-pad@1.0.0\<close> and \<open>pkg:npm/left-pad@1.0.1\<close> has one identity, and the run
  asks the registry twice and writes two report lines for it.
\<close>

theorem one_verdict_per_identity_counterexample:
  "identity ''pkg:npm/left-pad@1.0.0'' = identity ''pkg:npm/left-pad@1.0.1'' \<and>
   \<not> distinct (map tuple_identity
         (verdicts two_versions_env (purls_of two_versions_sbom) [ReadSbom ''sbom.json''])) \<and>
   main two_versions_env [SbomIn ''sbom.json''] =
     (Exit 0,
      [ReadSbom ''sbom.json'', HttpGet ''https://registry.npmjs.org/left-pad'',
       HttpGet ''https://registry.npmjs.org/left-pad'',
       WriteReport ''dependency_confusion_report.txt''
         ''[OK]   npm   left-pad not found publicly\<newline>[OK]   npm   left-pad not found publicly'',
       Stdout ''Dependency confusion report written to dependency_confusion_report.txt''])"
proof (intro conjI)
  show "identity ''pkg:npm/left-pad@1.0.0'' = identity ''pkg:npm/left-pad@1.0.1''"
    by (simp only: identity_left_pad_100 identity_left_pad_101)
  show "\<not> distinct (map tuple_identity
         (verdicts two_versions_env (purls_of two_versions_sbom) [ReadSbom ''sbom.json'']))"
    by (simp only: verdicts_identities purls_of_two_versions)
      (simp add: identity_left_pad_100 identity_left_pad_101)
  show "main two_versions_env [SbomIn ''sbom.json''] =
     (Exit 0,
      [ReadSbom ''sbom.json'', HttpGet ''https://registry.npmjs.org/left-pad'',
       HttpGet ''https://registry.npmjs.org/left-pad'',
       WriteReport ''dependency_confusion_report.txt''
         ''[OK]   npm   left-pad not found publicly\<newline>[OK]   npm   left-pad not found publicly'',
       Stdout ''Dependency confusion report written to dependency_confusion_report.txt''])"
    by code_simp
qed

text \<open>
  Claim C4, amended. Duplicates are removed among the purl strings, not among the
  identities: a run has exactly one verdict, and one report line, for every distinct
  non-empty purl of the SBOM that is not skipped, in the order of the sorted purls. The
  verdicts are one per package identity whenever the purls that are kept have pairwise
  different identities. In the end-to-end scenario the two identical components yield one
  line, and the report has two lines.
\<close>

theorem one_verdict_per_purl:
  "(let purls = purls_of data; vs = verdicts ev purls t
    in fst (check_purls ev purls [] t) = Inr (map tuple_line vs) \<and>
       map tuple_identity vs = map (the \<circ> identity) (filter (\<lambda>p. identity p \<noteq> None) purls) \<and>
       length vs = card {p \<in> set purls. identity p \<noteq> None} \<and>
       (inj_on identity {p \<in> set purls. identity p \<noteq> None} \<longrightarrow>
          distinct (map tuple_identity vs))) \<and>
   main scenario_env [SbomIn ''sbom.json''] =
     (Exit 0,
      [ReadSbom ''sbom.json'', HttpGet ''https://registry.npmjs.org/left-pad'',
       HttpGet ''https://pypi.org/pypi/requests/json'',
       WriteReport ''dependency_confusion_report.txt''
         ''[OK]   npm   left-pad not found publicly\<newline>[WARN] pypi  requests EXISTS publicly - potential collision'',
       Stdout ''Dependency confusion report written to dependency_confusion_report.txt''])"
proof -
  let ?ps = "purls_of data"
  let ?vs = "verdicts ev ?ps t"
  let ?kept = "filter (\<lambda>p. identity p \<noteq> None) ?ps"
  have d: "distinct ?ps" by (simp add: purls_of_def Let_def sorted_set_props)
  have 1: "fst (check_purls ev ?ps [] t) = Inr (map tuple_line ?vs)"
    using check_purls_lines [of ev ?ps "[]" t] by simp
  have 2: "map tuple_identity ?vs = map (the \<circ> identity) ?kept"
    by (rule verdicts_identities)
  have "length ?vs = length ?kept" by (rule verdicts_length)
  also have "\<dots> = card (set ?kept)"
  proof -
    have "distinct ?kept" using d by (rule distinct_filter)
    then show ?thesis by (rule distinct_card [symmetric])
  qed
  also have "set ?kept = {p \<in> set ?ps. identity p \<noteq> None}" by simp
  finally have 3: "length ?vs = card {p \<in> set ?ps. identity p \<noteq> None}" .
  have 4: "inj_on identity {p \<in> set ?ps. identity p \<noteq> None} \<longrightarrow> distinct (map tuple_identity ?vs)"
  proof
    assume inj: "inj_on identity {p \<in> set ?ps. identity p \<noteq> None}"
    have "inj_on (the \<circ> identity) (set ?kept)"
    proof (rule inj_onI)
      fix x y
      assume x: "x \<in> set ?kept" and y: "y \<in> set ?kept"
        and e: "(the \<circ> identity) x = (the \<circ> identity) y"
      from x y have "identity x \<noteq> None" "identity y \<noteq> None" by simp_all
      with e have eq: "identity x = identity y" by (auto simp: comp_def)
      from x have xin: "x \<in> {p \<in> set ?ps. identity p \<noteq> None}" by simp
      from y have yin: "y \<in> {p \<in> set ?ps. identity p \<noteq> None}" by simp
      from inj eq xin yin show "x = y" by (rule inj_onD)
    qed
    moreover have "distinct ?kept" using d by simp
    ultimately have "distinct (map (the \<circ> identity) ?kept)"
      by (simp add: distinct_map)
    with 2 show "distinct (map tuple_identity ?vs)" by simp
  qed
  have body: "fst (check_purls ev ?ps [] t) = Inr (map tuple_line ?vs) \<and>
       map tuple_identity ?vs = map (the \<circ> identity) ?kept \<and>
       length ?vs = card {p \<in> set ?ps. identity p \<noteq> None} \<and>
       (inj_on identity {p \<in> set ?ps. identity p \<noteq> None} \<longrightarrow>
          distinct (map tuple_identity ?vs))"
    by (intro conjI 1 2 3 4)
  show ?thesis
    unfolding Let_def by (rule conjI [OF body main_scenario])
qed

theorem one_verdict_per_purl_witness:
  "inj_on identity {p \<in> set (purls_of scenario_sbom). identity p \<noteq> None} \<and>
   distinct (map tuple_identity (verdicts scenario_env (purls_of scenario_sbom) []))"
proof -
  have i: "inj_on identity {p \<in> set (purls_of scenario_sbom). identity p \<noteq> None}"
    by (simp only: purls_of_scenario) (auto simp: inj_on_def identity_left_pad_100 identity_requests)
  note t = one_verdict_per_purl [of scenario_sbom scenario_env "[]", unfolded Let_def,
      THEN conjunct1, THEN conjunct2, THEN conjunct2, THEN conjunct2, THEN mp, OF i]
  show ?thesis by (intro conjI i t)
qed

subsection \<open>Report generator\<close>

lemma join_last:
  "ls \<noteq> [] \<Longrightarrow> last ls \<noteq> [] \<Longrightarrow> join sep ls \<noteq> [] \<and> last (join sep ls) = last (last ls)"
  by (induction sep ls rule: join.induct) auto

lemma join_Cons: "join sep (x # xs) = x @ concat (map (\<lambda>y. sep @ y) xs)"
  by (induction sep xs arbitrary: x rule: join.induct) simp_all

lemma report_line_last:
  "report_line eco name v \<noteq> [] \<and> last (report_line eco name v) \<noteq> CHR 10"
  by (simp add: report_line_def)

lemma tuple_line_last: "tuple_line x \<noteq> [] \<and> last (tuple_line x) \<noteq> CHR 10"
  by (cases x) (simp add: tuple_line_def report_line_last)

lemma report_no_trailing_newline:
  "join [CHR 10] (map tuple_line tuples) = [] \<or> last (join [CHR 10] (map tuple_line tuples)) \<noteq> CHR 10"
proof (cases tuples)
  case Nil
  then show ?thesis by simp
next
  case (Cons x xs)
  then have ne: "map tuple_line tuples \<noteq> []" by simp
  from Cons have "tuples \<noteq> []" by simp
  then have l: "last (map tuple_line tuples) = tuple_line (last tuples)"
    by (rule last_map)
  have "last (map tuple_line tuples) \<noteq> []"
    unfolding l using tuple_line_last by simp
  from join_last [OF ne this, of "[CHR 10]"] l tuple_line_last [of "last tuples"]
  show ?thesis by simp
qed

text \<open>
  Claim C7. The report has one line per (ecosystem, name, verdict) tuple, in order. A
  line is the tag of the verdict (\<open>[OK]\<close> for NotFoundPublicly, \<open>[WARN]\<close> for
  ExistsPublicly, \<open>[INFO]\<close> for Unknown), the ecosystem in a column of five characters,
  the name and the text of the verdict. The ecosystem starts the column and spaces fill
  it up to five characters, as \<open>{eco:<5}\<close> does and as the example lines of the
  specification show; a longer ecosystem is not cut. The lines are written to the
  destination joined by newlines, and the content never ends with a newline.
\<close>

theorem report_format:
  "report_line eco name NotFoundPublicly
     = ''[OK]   '' @ eco @ replicate (5 - length eco) CHR '' '' @ '' '' @ name
       @ '' not found publicly'' \<and>
   report_line eco name ExistsPublicly
     = ''[WARN] '' @ eco @ replicate (5 - length eco) CHR '' '' @ '' '' @ name
       @ '' EXISTS publicly - potential collision'' \<and>
   report_line eco name Unknown
     = ''[INFO] '' @ eco @ replicate (5 - length eco) CHR '' '' @ '' '' @ name
       @ '' unknown status or unsupported ecosystem'' \<and>
   length (eco @ replicate (5 - length eco) CHR '' '') = max 5 (length eco) \<and>
   fst (check_purls ev ps [] t) = Inr (map tuple_line (verdicts ev ps t)) \<and>
   length (map tuple_line tuples) = length tuples \<and>
   (\<exists>out t'. write_report ev path (map tuple_line tuples) t
       = (out, t @ WriteReport path (join [CHR 10] (map tuple_line tuples)) # t')) \<and>
   join [CHR 10] (map tuple_line (x # xs))
     = tuple_line x @ concat (map (\<lambda>y. CHR 10 # tuple_line y) xs) \<and>
   (join [CHR 10] (map tuple_line tuples) = [] \<or>
    last (join [CHR 10] (map tuple_line tuples)) \<noteq> CHR 10)"
proof (intro conjI)
  show "report_line eco name NotFoundPublicly
     = ''[OK]   '' @ eco @ replicate (5 - length eco) CHR '' '' @ '' '' @ name
       @ '' not found publicly''"
    by (simp add: report_line_def ljust_def)
  show "report_line eco name ExistsPublicly
     = ''[WARN] '' @ eco @ replicate (5 - length eco) CHR '' '' @ '' '' @ name
       @ '' EXISTS publicly - potential collision''"
    by (simp add: report_line_def ljust_def)
  show "report_line eco name Unknown
     = ''[INFO] '' @ eco @ replicate (5 - length eco) CHR '' '' @ '' '' @ name
       @ '' unknown status or unsupported ecosystem''"
    by (simp add: report_line_def ljust_def)
  show "length (eco @ replicate (5 - length eco) CHR '' '') = max 5 (length eco)"
    by simp
  show "fst (check_purls ev ps [] t) = Inr (map tuple_line (verdicts ev ps t))"
    using check_purls_lines [of ev ps "[]" t] by simp
  show "length (map tuple_line tuples) = length tuples"
    by simp
  show "\<exists>out t'. write_report ev path (map tuple_line tuples) t
       = (out, t @ WriteReport path (join [CHR 10] (map tuple_line tuples)) # t')"
    by (cases "write_file ev path (join [CHR 10] (map tuple_line tuples))")
      (simp_all add: write_report_def Let_def)
  show "join [CHR 10] (map tuple_line (x # xs))
     = tuple_line x @ concat (map (\<lambda>y. CHR 10 # tuple_line y) xs)"
    by (simp add: join_Cons comp_def)
  show "join [CHR 10] (map tuple_line tuples) = [] \<or>
    last (join [CHR 10] (map tuple_line tuples)) \<noteq> CHR 10"
    by (rule report_no_trailing_newline)
qed

lemma scenario_report:
  "join [CHR 10] (map tuple_line
      [(''npm'', ''left-pad'', NotFoundPublicly), (''pypi'', ''requests'', ExistsPublicly),
       (''golang'', ''x'', Unknown)])
   = ''[OK]   npm   left-pad not found publicly\<newline>[WARN] pypi  requests EXISTS publicly - potential collision\<newline>[INFO] golang x unknown status or unsupported ecosystem''"
  by code_simp

theorem report_format_witness:
  "join [CHR 10] (map tuple_line
      [(''npm'', ''left-pad'', NotFoundPublicly), (''pypi'', ''requests'', ExistsPublicly),
       (''golang'', ''x'', Unknown)]) \<noteq> [] \<and>
   last (join [CHR 10] (map tuple_line
      [(''npm'', ''left-pad'', NotFoundPublicly), (''pypi'', ''requests'', ExistsPublicly),
       (''golang'', ''x'', Unknown)])) \<noteq> CHR 10"
proof -
  let ?c = "join [CHR 10] (map tuple_line
      [(''npm'', ''left-pad'', NotFoundPublicly), (''pypi'', ''requests'', ExistsPublicly),
       (''golang'', ''x'', Unknown)])"
  have ne: "?c \<noteq> []" by (simp only: scenario_report) simp
  have d: "?c = [] \<or> last ?c \<noteq> CHR 10"
    by (rule report_format [where tuples = "[(''npm'', ''left-pad'', NotFoundPublicly),
        (''pypi'', ''requests'', ExistsPublicly), (''golang'', ''x'', Unknown)]",
        THEN conjunct2, THEN conjunct2, THEN conjunct2, THEN conjunct2, THEN conjunct2,
        THEN conjunct2, THEN conjunct2, THEN conjunct2])
  from d have "last ?c \<noteq> CHR 10"
  proof
    assume "?c = []"
    with ne show ?thesis by (rule notE)
  next
    assume "last ?c \<noteq> CHR 10"
    then show ?thesis .
  qed
  with ne show ?thesis by (rule conjI)
qed

subsection \<open>Command line\<close>

lemma consume_ok_iff:
  "\<not> (directory ns \<noteq> None \<and> sbom_in ns \<noteq> None) \<Longrightarrow>
   (\<exists>args. consume as ns = Inr args)
     \<longleftrightarrow> ((directory ns \<noteq> None \<or> has_directory as) \<noteq> (sbom_in ns \<noteq> None \<or> has_sbom_in as))"
proof (induction as ns rule: consume.induct)
  case (1 ns)
  then show ?case by (auto simp: has_directory_def has_sbom_in_def)
next
  case (2 d as ns)
  then show ?case by (auto simp: has_directory_def has_sbom_in_def)
next
  case (3 f as ns)
  then show ?case by (auto simp: has_directory_def has_sbom_in_def)
next
  case (4 f as ns)
  then show ?case by (auto simp: has_directory_def has_sbom_in_def)
next
  case (5 f as ns)
  then show ?case by (auto simp: has_directory_def has_sbom_in_def)
qed

lemma consume_neither:
  "directory ns = None \<Longrightarrow> sbom_in ns = None \<Longrightarrow> \<not> has_directory as \<Longrightarrow> \<not> has_sbom_in as \<Longrightarrow>
   consume as ns = Inl ''one of the arguments --directory --sbom-in is required''"
proof (induction as ns rule: consume.induct)
  case (1 ns)
  then show ?case by simp
next
  case (2 d as ns)
  then show ?case by (simp add: has_directory_def)
next
  case (3 f as ns)
  then show ?case by (simp add: has_sbom_in_def)
next
  case (4 f as ns)
  then show ?case by (simp add: has_directory_def has_sbom_in_def)
next
  case (5 f as ns)
  then show ?case by (simp add: has_directory_def has_sbom_in_def)
qed

lemma parse_args_ok_iff:
  "(\<exists>args. parse_args argv = Inr args) \<longleftrightarrow> (has_directory argv \<noteq> has_sbom_in argv)"
  using consume_ok_iff [of defaults argv] by (simp add: parse_args_def defaults_def)

lemma parse_args_rejects:
  assumes "has_directory argv = has_sbom_in argv"
  shows "\<exists>msg. parse_args argv = Inl msg"
proof (cases "parse_args argv")
  case (Inl msg)
  then show ?thesis by simp
next
  case (Inr args)
  then have "\<exists>args. parse_args argv = Inr args" by (intro exI)
  with parse_args_ok_iff [of argv] assms show ?thesis by simp
qed


text \<open>
  Claim C8. Without any argument the program prints the help and exits with status 1.
  Otherwise the command line is accepted by the parser exactly when it gives one of
  \<open>--directory\<close> and \<open>--sbom-in\<close> and not the other: with neither or with both the run
  ends in the parser with a usage error, before the scanning tool, the file system or a
  registry is touched.
\<close>

theorem cli_validation:
  "main ev [] = (Exit 1, [PrintHelp]) \<and>
   ((\<exists>args. parse_args argv = Inr args) \<longleftrightarrow> (has_directory argv \<noteq> has_sbom_in argv)) \<and>
   (argv \<noteq> [] \<and> has_directory argv = has_sbom_in argv \<longrightarrow>
      (\<exists>msg. main ev argv = (Exit 2, [UsageError msg]))) \<and>
   (argv \<noteq> [] \<and> \<not> has_directory argv \<and> \<not> has_sbom_in argv \<longrightarrow>
      main ev argv
        = (Exit 2, [UsageError ''one of the arguments --directory --sbom-in is required'']))"
proof (intro conjI impI)
  show "main ev [] = (Exit 1, [PrintHelp])" by (simp add: main_def)
  show "(\<exists>args. parse_args argv = Inr args) \<longleftrightarrow> (has_directory argv \<noteq> has_sbom_in argv)"
    by (rule parse_args_ok_iff)
next
  assume h: "argv \<noteq> [] \<and> has_directory argv = has_sbom_in argv"
  then have "\<exists>msg. parse_args argv = Inl msg" by (simp add: parse_args_rejects)
  then obtain msg where "parse_args argv = Inl msg" by (elim exE)
  with h have "main ev argv = (Exit 2, [UsageError msg])" by (simp add: main_def)
  then show "\<exists>msg. main ev argv = (Exit 2, [UsageError msg])" by (rule exI)
next
  assume h: "argv \<noteq> [] \<and> \<not> has_directory argv \<and> \<not> has_sbom_in argv"
  then have "parse_args argv = Inl ''one of the arguments --directory --sbom-in is required''"
    by (simp add: parse_args_def consume_neither defaults_def)
  with h show "main ev argv
        = (Exit 2, [UsageError ''one of the arguments --directory --sbom-in is required''])"
    by (simp add: main_def)
qed

theorem cli_validation_witness:
  "[Directory ''.'', SbomIn ''sbom.json''] \<noteq> [] \<and>
   has_directory [Directory ''.'', SbomIn ''sbom.json'']
     = has_sbom_in [Directory ''.'', SbomIn ''sbom.json''] \<and>
   (\<exists>msg. main scenario_env [Directory ''.'', SbomIn ''sbom.json''] = (Exit 2, [UsageError msg])) \<and>
   [ReportOut ''r.txt''] \<noteq> [] \<and> \<not> has_directory [ReportOut ''r.txt''] \<and>
   \<not> has_sbom_in [ReportOut ''r.txt''] \<and>
   main scenario_env [ReportOut ''r.txt'']
     = (Exit 2, [UsageError ''one of the arguments --directory --sbom-in is required''])"
proof -
  have a: "[Directory ''.'', SbomIn ''sbom.json''] \<noteq> [] \<and>
     has_directory [Directory ''.'', SbomIn ''sbom.json'']
       = has_sbom_in [Directory ''.'', SbomIn ''sbom.json'']"
    by (simp add: has_directory_def has_sbom_in_def)
  have b: "[ReportOut ''r.txt''] \<noteq> [] \<and> \<not> has_directory [ReportOut ''r.txt''] \<and>
     \<not> has_sbom_in [ReportOut ''r.txt'']"
    by (simp add: has_directory_def has_sbom_in_def)
  note t1 = cli_validation [of scenario_env "[Directory ''.'', SbomIn ''sbom.json'']",
      THEN conjunct2, THEN conjunct2, THEN conjunct1, THEN mp, OF a]
  note t2 = cli_validation [of scenario_env "[ReportOut ''r.txt'']",
      THEN conjunct2, THEN conjunct2, THEN conjunct2, THEN mp, OF b]
  from a b t1 t2 show ?thesis by (elim conjE) (intro conjI)
qed

subsection \<open>Exit codes\<close>

lemma sbom_source_given:
  "sbom_in args = Some f \<Longrightarrow> sbom_source ev args t = (Inr f, t)"
  by (simp add: sbom_source_def)

lemma sbom_source_scanned:
  assumes "sbom_in args = None" and "trivy_version ev = Returned 0"
  shows "sbom_source ev args t =
     (case trivy_fs ev (sbom_out args) (str_path (directory args)) of
        NotOnPath \<Rightarrow> (Inl (Uncaught FileNotFoundError),
          t @ [RunTrivyVersion, Stdout (''Generating SBOM -> '' @ sbom_out args),
               RunTrivyFs (sbom_out args) (str_path (directory args))])
      | Returned rc \<Rightarrow>
          if rc \<noteq> 0
          then (Inl (Exit rc),
            t @ [RunTrivyVersion, Stdout (''Generating SBOM -> '' @ sbom_out args),
                 RunTrivyFs (sbom_out args) (str_path (directory args)),
                 Stderr (''Error: Trivy SBOM generation failed (exit code '' @ str_int rc @ '').'')])
          else (Inr (sbom_out args),
            t @ [RunTrivyVersion, Stdout (''Generating SBOM -> '' @ sbom_out args),
                 RunTrivyFs (sbom_out args) (str_path (directory args))]))"
  using assms
  by (simp add: sbom_source_def check_trivy_def generate_sbom_def Let_def split: proc.split)

lemma sbom_source_resolved:
  assumes "sbom_in args \<noteq> None \<or>
     (trivy_version ev = Returned 0 \<and>
      trivy_fs ev (sbom_out args) (str_path (directory args)) = Returned 0)"
  shows "\<exists>t1. sbom_source ev args [] =
     (Inr (case sbom_in args of Some f \<Rightarrow> f | None \<Rightarrow> sbom_out args), t1)"
proof (cases "sbom_in args")
  case None
  with assms have v: "trivy_version ev = Returned 0"
    and f: "trivy_fs ev (sbom_out args) (str_path (directory args)) = Returned 0"
    by simp_all
  show ?thesis
    by (simp add: sbom_source_scanned [OF None v] f None)
next
  case (Some f)
  then show ?thesis by (simp add: sbom_source_given)
qed

lemma main_read_fails:
  assumes "argv \<noteq> []" and "parse_args argv = Inr args"
    and "sbom_source ev args [] = (Inr path, t1)"
    and "read_sbom ev path = MissingFile e \<or> read_sbom ev path = JSONDecodeError e"
  shows "fst (main ev argv) = Exit 1"
  using assms by (auto simp: main_def parse_purls_def Let_def)

lemma main_parsed:
  assumes "argv \<noteq> []" and "parse_args argv = Inr args"
    and "sbom_source ev args [] = (Inr path, t1)"
    and "read_sbom ev path = Parsed data"
  shows "\<exists>ls t4. main ev argv = write_report ev (report_out args) ls t4"
proof -
  have q: "parse_purls ev path t1 = (Inr (purls_of data), t1 @ [ReadSbom path])"
    using assms(4) by (simp add: parse_purls_def Let_def)
  have "main ev argv = write_report ev (report_out args)
      (map tuple_line (verdicts ev (purls_of data)
         (if purls_of data = [] then (t1 @ [ReadSbom path]) @ [Stderr ''No PURLs found in SBOM.'']
          else t1 @ [ReadSbom path])))
      (snd (check_purls ev (purls_of data) []
         (if purls_of data = [] then (t1 @ [ReadSbom path]) @ [Stderr ''No PURLs found in SBOM.'']
          else t1 @ [ReadSbom path])))"
    using assms(1) by (simp add: main_def assms(2) assms(3) q Let_def check_purls_case)
  then show ?thesis by (intro exI)
qed

lemma write_report_outcome:
  "\<exists>content. WriteReport out content \<in> set (snd (write_report ev out ls t)) \<and>
     fst (write_report ev out ls t)
       = (if write_file ev out content = None then Exit 0 else Exit 1)"
proof (rule exI [of _ "join [CHR 10] ls"])
  show "WriteReport out (join [CHR 10] ls) \<in> set (snd (write_report ev out ls t)) \<and>
     fst (write_report ev out ls t)
       = (if write_file ev out (join [CHR 10] ls) = None then Exit 0 else Exit 1)"
    by (cases "write_file ev out (join [CHR 10] ls)") (simp_all add: write_report_def Let_def)
qed

text \<open>
  Claim C6. The exit status of a run whose command line was accepted: when the scanning
  tool ends with a code other than 0, the run exits with that code; when the SBOM is
  resolved (given with \<open>--sbom-in\<close>, or scanned successfully) and its file is missing or is
  not JSON, the run exits with 1; when the SBOM is resolved and read, the report is
  written, and the run exits with 0 if the write succeeds and with 1 if it fails.
\<close>

theorem exit_codes:
  "argv \<noteq> [] \<and> parse_args argv = Inr args \<longrightarrow>
     (let path = (case sbom_in args of Some f \<Rightarrow> f | None \<Rightarrow> sbom_out args);
          scan = trivy_fs ev (sbom_out args) (str_path (directory args));
          resolved = (sbom_in args \<noteq> None \<or> (trivy_version ev = Returned 0 \<and> scan = Returned 0))
      in (\<forall>rc. sbom_in args = None \<and> trivy_version ev = Returned 0 \<and> scan = Returned rc \<and> rc \<noteq> 0
            \<longrightarrow> fst (main ev argv) = Exit rc) \<and>
         (\<forall>e. resolved \<and> (read_sbom ev path = MissingFile e \<or> read_sbom ev path = JSONDecodeError e)
            \<longrightarrow> fst (main ev argv) = Exit 1) \<and>
         (\<forall>data. resolved \<and> read_sbom ev path = Parsed data
            \<longrightarrow> (\<exists>content. WriteReport (report_out args) content \<in> set (snd (main ev argv)) \<and>
                   fst (main ev argv)
                     = (if write_file ev (report_out args) content = None then Exit 0 else Exit 1))))"
proof (unfold Let_def, rule impI)
  assume h: "argv \<noteq> [] \<and> parse_args argv = Inr args"
  then have ne: "argv \<noteq> []" and pa: "parse_args argv = Inr args" by simp_all
  let ?path = "case sbom_in args of Some f \<Rightarrow> f | None \<Rightarrow> sbom_out args"
  let ?scan = "trivy_fs ev (sbom_out args) (str_path (directory args))"
  let ?resolved = "sbom_in args \<noteq> None \<or> (trivy_version ev = Returned 0 \<and> ?scan = Returned 0)"
  let ?A = "\<forall>rc. sbom_in args = None \<and> trivy_version ev = Returned 0 \<and> ?scan = Returned rc \<and> rc \<noteq> 0
            \<longrightarrow> fst (main ev argv) = Exit rc"
  let ?B = "\<forall>e. ?resolved \<and> (read_sbom ev ?path = MissingFile e \<or> read_sbom ev ?path = JSONDecodeError e)
            \<longrightarrow> fst (main ev argv) = Exit 1"
  let ?C = "\<forall>data. ?resolved \<and> read_sbom ev ?path = Parsed data
            \<longrightarrow> (\<exists>content. WriteReport (report_out args) content \<in> set (snd (main ev argv)) \<and>
                   fst (main ev argv)
                     = (if write_file ev (report_out args) content = None then Exit 0 else Exit 1))"
  have a: ?A
  proof (intro allI impI)
    fix rc
    assume s: "sbom_in args = None \<and> trivy_version ev = Returned 0 \<and> ?scan = Returned rc \<and> rc \<noteq> 0"
    then have n: "sbom_in args = None" and v: "trivy_version ev = Returned 0" by simp_all
    from s show "fst (main ev argv) = Exit rc"
      using ne by (simp add: main_def pa sbom_source_scanned [OF n v])
  qed
  have b: ?B
  proof (intro allI impI)
    fix e
    assume s: "?resolved \<and> (read_sbom ev ?path = MissingFile e \<or> read_sbom ev ?path = JSONDecodeError e)"
    then have r: ?resolved
      and f: "read_sbom ev ?path = MissingFile e \<or> read_sbom ev ?path = JSONDecodeError e"
      by (rule conjunct1, rule conjunct2)
    from sbom_source_resolved [OF r] obtain t1 where "sbom_source ev args [] = (Inr ?path, t1)"
      by (elim exE)
    from ne pa this f show "fst (main ev argv) = Exit 1" by (rule main_read_fails)
  qed
  have c: ?C
  proof (intro allI impI)
    fix data
    assume s: "?resolved \<and> read_sbom ev ?path = Parsed data"
    then have r: ?resolved and f: "read_sbom ev ?path = Parsed data"
      by (rule conjunct1, rule conjunct2)
    from sbom_source_resolved [OF r] obtain t1 where "sbom_source ev args [] = (Inr ?path, t1)"
      by (elim exE)
    from main_parsed [OF ne pa this f] obtain ls t4
      where m: "main ev argv = write_report ev (report_out args) ls t4"
      by (elim exE)
    show "\<exists>content. WriteReport (report_out args) content \<in> set (snd (main ev argv)) \<and>
                   fst (main ev argv)
                     = (if write_file ev (report_out args) content = None then Exit 0 else Exit 1)"
      unfolding m by (rule write_report_outcome)
  qed
  show "?A \<and> ?B \<and> ?C" by (intro conjI a b c)
qed


theorem exit_codes_witness:
  "fst (main scenario_env [SbomIn ''sbom.json'']) = Exit 0 \<and>
   fst (main scan_fails_env [Directory ''.'']) = Exit 3 \<and>
   fst (main missing_env [SbomIn ''sbom.json'']) = Exit 1 \<and>
   fst (main readonly_env [SbomIn ''sbom.json'']) = Exit 1"
proof -
  have p1: "[SbomIn ''sbom.json''] \<noteq> [] \<and>
      parse_args [SbomIn ''sbom.json''] = Inr (defaults \<lparr> sbom_in := Some ''sbom.json'' \<rparr>)"
    by (simp add: parse_args_def defaults_def)
  have p2: "[Directory ''.''] \<noteq> [] \<and>
      parse_args [Directory ''.''] = Inr (defaults \<lparr> directory := Some ''.'' \<rparr>)"
    by (simp add: parse_args_def defaults_def)
  note ok = exit_codes [of "[SbomIn ''sbom.json'']" "defaults \<lparr> sbom_in := Some ''sbom.json'' \<rparr>"
      scenario_env, THEN mp, OF p1, unfolded Let_def]
  note scan = exit_codes [of "[Directory ''.'']" "defaults \<lparr> directory := Some ''.'' \<rparr>"
      scan_fails_env, THEN mp, OF p2, unfolded Let_def]
  note missing = exit_codes [of "[SbomIn ''sbom.json'']"
      "defaults \<lparr> sbom_in := Some ''sbom.json'' \<rparr>" missing_env, THEN mp, OF p1, unfolded Let_def]
  note readonly = exit_codes [of "[SbomIn ''sbom.json'']"
      "defaults \<lparr> sbom_in := Some ''sbom.json'' \<rparr>" readonly_env, THEN mp, OF p1, unfolded Let_def]
  have 1: "fst (main scenario_env [SbomIn ''sbom.json'']) = Exit 0"
    using ok [THEN conjunct2, THEN conjunct2, THEN spec, of scenario_sbom]
    by (auto simp: scenario_env_def defaults_def)
  have 2: "fst (main scan_fails_env [Directory ''.'']) = Exit 3"
    using scan [THEN conjunct1, THEN spec, of 3]
    by (simp add: scan_fails_env_def scenario_env_def defaults_def)
  have 3: "fst (main missing_env [SbomIn ''sbom.json'']) = Exit 1"
    using missing [THEN conjunct2, THEN conjunct1, THEN spec, of "''[Errno 2] No such file or directory''"]
    by (simp add: missing_env_def scenario_env_def defaults_def)
  have 4: "fst (main readonly_env [SbomIn ''sbom.json'']) = Exit 1"
    using readonly [THEN conjunct2, THEN conjunct2, THEN spec, of scenario_sbom]
    by (auto simp: readonly_env_def scenario_env_def defaults_def)
  show ?thesis by (intro conjI 1 2 3 4)
qed

end
